theory Spec2Isabelle
  imports Complex_Main "HOL-Library.Multiset"
begin

section \<open>Sales forecasting pipeline (src/ml/forecasting.py, src/analytics/forecasting.py)\<close>

text \<open>
  Conventions of the embedding.
  \<^item> A timestamp is an \<open>int\<close>: the number of days since 1970-01-01 (the SQL queries yield
    \<open>DATE\<close> values); \<open>pd.Timedelta(days=30)\<close> is \<open>30\<close>.
  \<^item> A float64 is idealised as a \<open>real\<close>; a missing or undefined float (NaN, and the
    infinities of a division by zero) is \<open>None\<close> of \<open>real option\<close>.
  \<^item> An exception is a value of \<open>error\<close>; a function that can raise returns \<open>error + 'a\<close>
    with \<open>Inl\<close> the exception. Every \<open>except Exception: log; raise\<close> wrapper re-raises
    the same exception, so it is the identity on results.
  \<^item> The Prophet library is a parameter (\<open>prophet_lib\<close>): the model fit and the prediction
    are functions of their arguments.
  \<^item> Of the logger only \<open>logger.warning\<close> is recorded (in the trace of events, with the
    calls made to the library).
\<close>

subsection \<open>Exceptions\<close>

datatype error =
    ValueError string
  | IndexError
  | AttributeError
  | UnboundLocalError
  | DateParseError string
  | DatabaseError string
  | ProphetError string

subsection \<open>Series primitives of pandas and numpy\<close>

text \<open>\<open>Series.iloc[i]\<close>: a negative index counts from the end, out of range raises.\<close>

definition iloc :: "'a list \<Rightarrow> int \<Rightarrow> error + 'a" where
  "iloc xs i =
     (if 0 \<le> i \<and> i < int (length xs) then Inr (xs ! nat i)
      else if i < 0 \<and> - i \<le> int (length xs) then Inr (xs ! nat (int (length xs) + i))
      else Inl IndexError)"

text \<open>\<open>Series.sum()\<close> is 0 on the empty series; \<open>mean\<close>, \<open>min\<close> and \<open>max\<close> are NaN there.\<close>

definition series_sum :: "real list \<Rightarrow> real" where
  "series_sum xs = foldl (+) 0 xs"

definition series_mean :: "real list \<Rightarrow> real option" where
  "series_mean xs = (if xs = [] then None else Some (series_sum xs / real (length xs)))"

definition series_min :: "real list \<Rightarrow> real option" where
  "series_min xs = (case xs of [] \<Rightarrow> None | x # rest \<Rightarrow> Some (fold min rest x))"

definition series_max :: "real list \<Rightarrow> real option" where
  "series_max xs = (case xs of [] \<Rightarrow> None | x # rest \<Rightarrow> Some (fold max rest x))"

text \<open>\<open>Series.std()\<close>: the sample standard deviation (ddof = 1), NaN on fewer than two values.\<close>

definition series_std :: "real list \<Rightarrow> real option" where
  "series_std xs =
     (if length xs < 2 then None
      else let m = series_sum xs / real (length xs)
           in Some (sqrt (series_sum (map (\<lambda>x. (x - m)\<^sup>2) xs) / real (length xs - 1))))"

subsection \<open>Tables\<close>

record point =
  ds :: int

text \<open>A row of a prepared frame. The columns \<open>is_spike\<close> and \<open>dow\<close> exist only in some
  frames; \<open>columns\<close> of the frame says which cells of a row are present.\<close>

record prow = point +
  y :: real
  is_spike :: "int option"
  dow :: "int option"

record frame =
  columns :: "string list"
  rows :: "prow list"

text \<open>A row of the table that Prophet's \<open>predict\<close> returns.\<close>

record forecast_row = point +
  yhat :: real
  yhat_lower :: real
  yhat_upper :: real
  trend :: real

text \<open>The table returned by \<open>get_forecast_dataframe\<close>, with its renamed columns.\<close>

record output_row =
  date :: int
  predicted :: real
  lower_bound :: real
  upper_bound :: real
  out_trend :: real

record accuracy =
  mae :: "real option"
  rmse :: "real option"
  mape :: "real option"
  accuracy_percent :: "real option"

record summary =
  avg_predicted_value :: "real option"
  total_predicted_value :: real
  min_predicted_value :: "real option"
  max_predicted_value :: "real option"
  avg_uncertainty :: "real option"
  trend_direction :: string
  accuracy_metrics :: "accuracy option"

subsection \<open>The Prophet library and the forecaster object\<close>

text \<open>The Prophet object as \<open>train\<close> configures it; \<open>fitted\<close> is the handle of the fit.\<close>

record 'm prophet =
  seasonality_mode :: string
  changepoint_prior_scale :: real
  seasonality_prior_scale :: real
  daily_seasonality :: bool
  weekly_seasonality :: bool
  yearly_seasonality :: bool
  interval_width :: real
  country_holidays :: "string option"
  seasonalities :: "(string \<times> real \<times> nat) list"
  extra_regressors :: "string list"
  fitted :: "'m option"

text \<open>A row of the frame handed to Prophet's \<open>predict\<close>.\<close>

record future_row = point +
  future_spike :: "real option"

record 'm prophet_lib =
  lib_init :: "string \<Rightarrow> error option"
  lib_add_country_holidays :: "string \<Rightarrow> error option"
  lib_fit :: "'m prophet \<Rightarrow> frame \<Rightarrow> error + 'm"
  lib_make_future_dataframe :: "'m \<Rightarrow> int \<Rightarrow> string \<Rightarrow> error + int list"
  lib_predict :: "'m prophet \<Rightarrow> 'm \<Rightarrow> future_row list \<Rightarrow> error + forecast_row list"

datatype event =
    Warning string
  | ProphetFit frame
  | ProphetPredict "future_row list"

record 'm forecaster =
  model :: "'m prophet option"
  forecast_df :: "forecast_row list option"
  trained :: bool
  spike_patterns :: "(int \<times> real option) list option"
  trace :: "event list"

definition init :: "'m forecaster" where
  "init = \<lparr>model = None, forecast_df = None, trained = False, spike_patterns = None,
           trace = []\<rparr>"

subsection \<open>\<open>SalesForecaster.get_forecast_summary\<close>\<close>

definition future_window :: "forecast_row list \<Rightarrow> error + forecast_row list" where
  "future_window fc =
     (case iloc (map ds fc) (-1) of
        Inl e \<Rightarrow> Inl e
      | Inr last_ds \<Rightarrow> Inr (filter (\<lambda>r. ds r > last_ds - 30) fc))"

definition get_forecast_summary :: "'m forecaster \<Rightarrow> error + summary" where
  "get_forecast_summary self =
     (case forecast_df self of
        None \<Rightarrow> Inl (ValueError ''No forecast available. Run predict() first.'')
      | Some fc \<Rightarrow>
         (case future_window fc of
            Inl e \<Rightarrow> Inl e
          | Inr future_df \<Rightarrow>
             (case iloc (map trend future_df) (-1) of
                Inl e \<Rightarrow> Inl e
              | Inr t_last \<Rightarrow>
                 (case iloc (map trend future_df) 0 of
                    Inl e \<Rightarrow> Inl e
                  | Inr t_first \<Rightarrow>
                     Inr \<lparr>avg_predicted_value = series_mean (map yhat future_df),
                          total_predicted_value = series_sum (map yhat future_df),
                          min_predicted_value = series_min (map yhat future_df),
                          max_predicted_value = series_max (map yhat future_df),
                          avg_uncertainty =
                            series_mean (map (\<lambda>r. yhat_upper r - yhat_lower r) future_df),
                          trend_direction =
                            (if t_last > t_first then ''increasing'' else ''decreasing''),
                          accuracy_metrics = None\<rparr>))))"

subsection \<open>\<open>SalesForecaster.get_forecast_dataframe\<close>\<close>

definition rename_columns :: "forecast_row \<Rightarrow> output_row" where
  "rename_columns r =
     \<lparr>date = ds r, predicted = yhat r, lower_bound = yhat_lower r,
      upper_bound = yhat_upper r, out_trend = trend r\<rparr>"

definition get_forecast_dataframe :: "'m forecaster \<Rightarrow> bool \<Rightarrow> error + output_row list" where
  "get_forecast_dataframe self future_only =
     (case forecast_df self of
        None \<Rightarrow> Inl (ValueError ''No forecast available. Run predict() first.'')
      | Some df \<Rightarrow>
         if future_only then
           (case (if length df > 30 then iloc (map ds df) (-31) else iloc (map ds df) 0) of
              Inl e \<Rightarrow> Inl e
            | Inr last_historical_date \<Rightarrow>
                Inr (map rename_columns (filter (\<lambda>r. ds r > last_historical_date) df)))
         else Inr (map rename_columns df))"

subsection \<open>\<open>SalesForecaster.prepare_data\<close>\<close>

text \<open>The raw table of a query: a date cell and a value cell per row. A date cell is a
  date, null, or text that \<open>pd.to_datetime\<close> cannot parse; a value cell is something
  \<open>pd.to_numeric\<close> can read as a number, null, or anything else.\<close>

datatype raw_date = Date int | NoDate | BadDate string

datatype raw_value = Number real | NoValue | NonNumeric string

type_synonym raw_table = "(raw_date \<times> raw_value) list"

text \<open>\<open>pd.to_datetime(col)\<close> with the default \<open>errors='raise'\<close>: null becomes NaT, the first
  unparseable cell raises.\<close>

fun to_datetime :: "raw_date list \<Rightarrow> error + int option list" where
  "to_datetime [] = Inr []"
| "to_datetime (c # cs) =
     (case c of
        BadDate s \<Rightarrow> Inl (DateParseError s)
      | NoDate \<Rightarrow> (case to_datetime cs of Inl e \<Rightarrow> Inl e | Inr ds' \<Rightarrow> Inr (None # ds'))
      | Date d \<Rightarrow> (case to_datetime cs of Inl e \<Rightarrow> Inl e | Inr ds' \<Rightarrow> Inr (Some d # ds')))"

text \<open>\<open>pd.to_numeric(col, errors='coerce')\<close>: whatever is not a number becomes NaN.\<close>

definition to_numeric_coerce :: "raw_value list \<Rightarrow> real option list" where
  "to_numeric_coerce vs = map (\<lambda>v. case v of Number x \<Rightarrow> Some x | _ \<Rightarrow> None) vs"

text \<open>\<open>DataFrame.dropna()\<close> on the two columns \<open>ds\<close> and \<open>y\<close>.\<close>

definition dropna :: "(int option \<times> real option) list \<Rightarrow> prow list" where
  "dropna cells =
     concat (map (\<lambda>(d, v). case (d, v) of
                    (Some d', Some v') \<Rightarrow> [\<lparr>ds = d', y = v', is_spike = None, dow = None\<rparr>]
                  | _ \<Rightarrow> []) cells)"

text \<open>\<open>Series.rolling(window=7, center=True)\<close>: the window of position \<open>i\<close> holds the
  positions \<open>i - 3\<close> to \<open>i + 3\<close> that exist; with fewer than \<open>min_periods = 7\<close> values the
  result is NaN.\<close>

definition rolling_window :: "real list \<Rightarrow> nat \<Rightarrow> real list" where
  "rolling_window ys i = map ((!) ys) (filter (\<lambda>j. i \<le> j + 3 \<and> j \<le> i + 3) [0..<length ys])"

definition rolling :: "(real list \<Rightarrow> real option) \<Rightarrow> real list \<Rightarrow> real option list" where
  "rolling agg ys =
     map (\<lambda>i. let w = rolling_window ys i in if length w < 7 then None else agg w)
       [0..<length ys]"

definition fillna :: "real option \<Rightarrow> real option list \<Rightarrow> real option list" where
  "fillna v col = map (\<lambda>c. case c of None \<Rightarrow> v | Some x \<Rightarrow> Some x) col"

definition spike_threshold :: "real option \<Rightarrow> real option \<Rightarrow> real option" where
  "spike_threshold m s =
     (case (m, s) of (Some m', Some s') \<Rightarrow> Some (m' + 2 * s') | _ \<Rightarrow> None)"

text \<open>A comparison with NaN is false.\<close>

definition exceeds :: "real \<Rightarrow> real option \<Rightarrow> int" where
  "exceeds v t = (case t of Some t' \<Rightarrow> (if v > t' then 1 else 0) | None \<Rightarrow> 0)"

text \<open>The body of \<open>if detect_spikes and len(prophet_df) > 30\<close>. The two
  \<open>fillna(..., inplace=True)\<close> calls fill the columns of the frame (pandas without
  copy-on-write); the temporary columns are local values here, so dropping them leaves the
  frame with \<open>is_spike\<close> added.\<close>

definition detect_spikes_step :: "frame \<Rightarrow> frame" where
  "detect_spikes_step prophet_df =
     (let ys = map y (rows prophet_df);
          rolling_mean = fillna (series_mean ys) (rolling series_mean ys);
          rolling_std = fillna (series_std ys) (rolling series_std ys);
          threshold = map2 spike_threshold rolling_mean rolling_std
      in \<lparr>columns = columns prophet_df @ [''is_spike''],
          rows = map2 (\<lambda>r t. r\<lparr>is_spike := Some (exceeds (y r) t)\<rparr>) (rows prophet_df) threshold\<rparr>)"

text \<open>\<open>Series.quantile(q)\<close>, linear interpolation between the two nearest order statistics.\<close>

definition quantile :: "real list \<Rightarrow> real \<Rightarrow> real option" where
  "quantile xs q =
     (if xs = [] then None
      else let s = sort xs;
               h = real (length xs - 1) * q;
               lo = nat \<lfloor>h\<rfloor>;
               hi = min (lo + 1) (length xs - 1)
           in Some (s ! lo + (h - real lo) * (s ! hi - s ! lo)))"

text \<open>The body of \<open>if remove_outliers and len(prophet_df) > 30\<close>; a comparison with a NaN
  bound is false, which keeps no row.\<close>

definition remove_outliers_step :: "frame \<Rightarrow> frame" where
  "remove_outliers_step prophet_df =
     (case (quantile (map y (rows prophet_df)) (1/4), quantile (map y (rows prophet_df)) (3/4)) of
        (Some Q1, Some Q3) \<Rightarrow>
          (let IQR = Q3 - Q1;
               lower_bound = Q1 - 3 * IQR;
               upper_bound = Q3 + 3 * IQR
           in prophet_df\<lparr>rows := filter (\<lambda>r. y r \<ge> lower_bound \<and> y r \<le> upper_bound)
                                     (rows prophet_df)\<rparr>)
      | _ \<Rightarrow> prophet_df\<lparr>rows := []\<rparr>)"

definition sort_values_ds :: "frame \<Rightarrow> frame" where
  "sort_values_ds df = df\<lparr>rows := sort_key ds (rows df)\<rparr>"

definition prepare_data :: "raw_table \<Rightarrow> bool \<Rightarrow> bool \<Rightarrow> error + frame" where
  "prepare_data df remove_outliers detect_spikes =
     (case to_datetime (map fst df) of
        Inl e \<Rightarrow> Inl e
      | Inr dates \<Rightarrow>
         (let prophet_df = \<lparr>columns = [''ds'', ''y''],
                            rows = dropna (zip dates (to_numeric_coerce (map snd df)))\<rparr>;
              prophet_df = (if detect_spikes \<and> length (rows prophet_df) > 30
                            then detect_spikes_step prophet_df else prophet_df);
              prophet_df = (if remove_outliers \<and> length (rows prophet_df) > 30
                            then remove_outliers_step prophet_df else prophet_df)
          in Inr (sort_values_ds prophet_df)))"

subsection \<open>\<open>SalesForecaster.train\<close>\<close>

text \<open>\<open>Series.dt.dayofweek\<close>: Monday is 0; 1970-01-01 was a Thursday.\<close>

definition dayofweek :: "int \<Rightarrow> int" where
  "dayofweek d = (d + 3) mod 7"

text \<open>\<open>df['dow'] = df['ds'].dt.dayofweek\<close> writes the column into the frame object it is
  given, which is the caller's.\<close>

definition set_dow :: "frame \<Rightarrow> frame" where
  "set_dow df =
     \<lparr>columns = (if ''dow'' \<in> set (columns df) then columns df else columns df @ [''dow'']),
      rows = map (\<lambda>r. r\<lparr>dow := Some (dayofweek (ds r))\<rparr>) (rows df)\<rparr>"

text \<open>\<open>df.drop('dow', axis=1)\<close> returns a new frame and leaves its argument as it is.\<close>

definition drop_dow :: "frame \<Rightarrow> frame" where
  "drop_dow df =
     \<lparr>columns = filter (\<lambda>c. c \<noteq> ''dow'') (columns df),
      rows = map (\<lambda>r. r\<lparr>dow := None\<rparr>) (rows df)\<rparr>"

text \<open>\<open>df.groupby('dow')['is_spike'].mean().to_dict()\<close>.\<close>

definition spike_by_dow :: "frame \<Rightarrow> (int \<times> real option) list" where
  "spike_by_dow df =
     map (\<lambda>k. (k, series_mean
                    (concat (map (\<lambda>r. case is_spike r of Some b \<Rightarrow> [real_of_int b] | None \<Rightarrow> [])
                               (filter (\<lambda>r. dow r = Some k) (rows df))))))
       (sort (remdups (concat (map (\<lambda>r. case dow r of Some k \<Rightarrow> [k] | None \<Rightarrow> []) (rows df)))))"

text \<open>\<open>train\<close> returns its outcome, the forecaster after the call, and the frame object of
  the caller after the call.\<close>

definition train ::
  "'m prophet_lib \<Rightarrow> 'm forecaster \<Rightarrow> frame \<Rightarrow> string \<Rightarrow> real \<Rightarrow> real \<Rightarrow> string
     \<Rightarrow> (error + unit) \<times> 'm forecaster \<times> frame" where
  "train L self df mode cps sps add_country_holidays =
     (case lib_init L mode of
        Some e \<Rightarrow> (Inl e, self, df)
      | None \<Rightarrow>
         (let m0 = \<lparr>seasonality_mode = mode, changepoint_prior_scale = cps,
                    seasonality_prior_scale = sps, daily_seasonality = False,
                    weekly_seasonality = True, yearly_seasonality = True,
                    interval_width = 95/100, country_holidays = None, seasonalities = [],
                    extra_regressors = [], fitted = None\<rparr>;
              (m1, w) =
                (if add_country_holidays \<noteq> [] then
                   (case lib_add_country_holidays L add_country_holidays of
                      None \<Rightarrow> (m0\<lparr>country_holidays := Some add_country_holidays\<rparr>, [])
                    | Some e \<Rightarrow> (m0, [Warning ''Could not add holidays'']))
                 else (m0, []));
              m2 = m1\<lparr>seasonalities := seasonalities m1 @ [(''monthly'', 61/2, 5)]\<rparr>;
              (m3, patterns, caller_df, fit_df) =
                (if ''is_spike'' \<in> set (columns df) then
                   (let df1 = set_dow df
                    in (m2\<lparr>extra_regressors := extra_regressors m2 @ [''is_spike'']\<rparr>,
                        Some (spike_by_dow df1), df1, drop_dow df1))
                 else (m2, spike_patterns self, df, df));
              self1 = self\<lparr>model := Some m3, spike_patterns := patterns,
                          trace := trace self @ w @ [ProphetFit fit_df]\<rparr>
          in case lib_fit L m3 fit_df of
               Inl e \<Rightarrow> (Inl e, self1, caller_df)
             | Inr h \<Rightarrow>
                 (Inr (), self1\<lparr>model := Some (m3\<lparr>fitted := Some h\<rparr>), trained := True\<rparr>,
                  caller_df)))"

subsection \<open>\<open>SalesForecaster.predict\<close>\<close>

definition future_frame :: "'m prophet \<Rightarrow> (int \<times> real option) list option \<Rightarrow> int list \<Rightarrow> future_row list" where
  "future_frame m patterns dates =
     (if ''is_spike'' \<in> set (extra_regressors m) then
        (case patterns of
           Some pat \<Rightarrow>
             map (\<lambda>d. \<lparr>ds = d,
                       future_spike = Some (case map_of pat (dayofweek d) of
                                              Some (Some v) \<Rightarrow> v | _ \<Rightarrow> 0)\<rparr>) dates
         | None \<Rightarrow> map (\<lambda>d. \<lparr>ds = d, future_spike = Some 0\<rparr>) dates)
      else map (\<lambda>d. \<lparr>ds = d, future_spike = None\<rparr>) dates)"

definition predict ::
  "'m prophet_lib \<Rightarrow> 'm forecaster \<Rightarrow> int \<Rightarrow> string
     \<Rightarrow> (error + forecast_row list) \<times> 'm forecaster" where
  "predict L self periods freq =
     (if \<not> trained self then
        (Inl (ValueError ''Model must be trained before making predictions''), self)
      else
        (case model self of
           None \<Rightarrow> (Inl AttributeError, self)
         | Some m \<Rightarrow>
            (case fitted m of
               None \<Rightarrow> (Inl (ProphetError ''Model has not been fit.''), self)
             | Some h \<Rightarrow>
                (case lib_make_future_dataframe L h periods freq of
                   Inl e \<Rightarrow> (Inl e, self)
                 | Inr dates \<Rightarrow>
                    (let future = future_frame m (spike_patterns self) dates;
                         self1 = self\<lparr>trace := trace self @ [ProphetPredict future]\<rparr>
                     in case lib_predict L m h future of
                          Inl e \<Rightarrow> (Inl e, self1)
                        | Inr fc \<Rightarrow> (Inr fc, self1\<lparr>forecast_df := Some fc\<rparr>))))))"

subsection \<open>\<open>SalesForecaster.calculate_accuracy\<close>\<close>

text \<open>\<open>pd.merge(actual_df, forecast_df[['ds', 'yhat']], on='ds', how='inner')\<close>, as the pairs
  of \<open>y\<close> and \<open>yhat\<close>.\<close>

definition merge_inner :: "prow list \<Rightarrow> forecast_row list \<Rightarrow> (real \<times> real) list" where
  "merge_inner actual fc =
     concat (map (\<lambda>a. map (\<lambda>f. (y a, yhat f)) (filter (\<lambda>f. ds f = ds a) fc)) actual)"

definition calculate_accuracy :: "'m forecaster \<Rightarrow> frame \<Rightarrow> error + accuracy" where
  "calculate_accuracy self actual_df =
     (case forecast_df self of
        None \<Rightarrow> Inl (ValueError ''No forecast available'')
      | Some fc \<Rightarrow>
         (let merged = merge_inner (rows actual_df) fc;
              mae' = series_mean (map (\<lambda>(a, p). \<bar>a - p\<bar>) merged);
              rmse' = map_option sqrt (series_mean (map (\<lambda>(a, p). (a - p)\<^sup>2) merged));
              mape' = (if \<exists>(a, p) \<in> set merged. a = 0 then None
                       else map_option (\<lambda>v. v * 100)
                              (series_mean (map (\<lambda>(a, p). \<bar>(a - p) / a\<bar>) merged)))
          in Inr \<lparr>mae = mae', rmse = rmse', mape = mape',
                  accuracy_percent = map_option (\<lambda>v. 100 - v) mape'\<rparr>))"

subsection \<open>The orchestrators of src/analytics/forecasting.py\<close>

text \<open>The database is a parameter: the outcome of the query of the slice, the rows (one
  per distinct date, by the \<open>GROUP BY\<close>) or the exception. An orchestrator returns its
  outcome and the trace of its warnings and library calls.\<close>

definition ds_max :: "prow list \<Rightarrow> int option" where
  "ds_max rs = (case rs of [] \<Rightarrow> None | r # rest \<Rightarrow> Some (fold max (map ds rest) (ds r)))"

text \<open>\<open>forecast_df[forecast_df['ds'] > last_date]\<close>; a comparison with NaT is false.\<close>

definition after_date :: "int option \<Rightarrow> forecast_row list \<Rightarrow> forecast_row list" where
  "after_date last_date fc =
     (case last_date of None \<Rightarrow> [] | Some d \<Rightarrow> filter (\<lambda>r. ds r > d) fc)"

text \<open>A function that falls off its end returns \<open>None\<close>.\<close>

definition get_revenue_forecast ::
  "'m prophet_lib \<Rightarrow> error + raw_table \<Rightarrow> int \<Rightarrow> string \<Rightarrow> bool \<Rightarrow> string \<Rightarrow> bool
     \<Rightarrow> (error + (forecast_row list \<times> summary) option) \<times> event list" where
  "get_revenue_forecast L db periods freq include_history mode use_ensemble =
     (case db of
        Inl e \<Rightarrow> (Inl e, [])
      | Inr revenue_df \<Rightarrow>
         (let w = (if length revenue_df < 30
                   then [Warning ''Insufficient historical data for accurate forecasting (minimum 30 days recommended)'']
                   else []);
              use_ensemble = (if use_ensemble then False else use_ensemble)
          in if \<not> use_ensemble then
               (case prepare_data revenue_df False False of
                  Inl e \<Rightarrow> (Inl e, w)
                | Inr prophet_df \<Rightarrow>
                   (case train L init prophet_df ''additive'' (18/100) 12 ''UK'' of
                      (Inl e, f1, prophet_df1) \<Rightarrow> (Inl e, w @ trace f1)
                    | (Inr u, f1, prophet_df1) \<Rightarrow>
                       (case predict L f1 periods freq of
                          (Inl e, f2) \<Rightarrow> (Inl e, w @ trace f2)
                        | (Inr fc, f2) \<Rightarrow>
                           (case get_forecast_summary f2 of
                              Inl e \<Rightarrow> (Inl e, w @ trace f2)
                            | Inr summary \<Rightarrow>
                               (case calculate_accuracy f2 prophet_df1 of
                                  Inl e \<Rightarrow> (Inl e, w @ trace f2)
                                | Inr accuracy_metrics' \<Rightarrow>
                                   (Inr (Some
                                      (if \<not> include_history
                                       then after_date (ds_max (rows prophet_df1)) fc else fc,
                                       summary\<lparr>accuracy_metrics := Some accuracy_metrics'\<rparr>)),
                                    w @ trace f2))))))
             else (Inr None, w)))"

text \<open>The second component of what the product and country orchestrators return: the
  summary, or the dict \<open>{'error': ...}\<close>.\<close>

datatype summary_dict = SummaryDict summary | ErrorDict string

text \<open>The pipeline that \<open>get_product_forecast\<close> and \<open>get_country_forecast\<close> share word for
  word, from the length check on; they differ in the query and in the warning.\<close>

definition slice_forecast ::
  "'m prophet_lib \<Rightarrow> string \<Rightarrow> raw_table \<Rightarrow> int \<Rightarrow> string
     \<Rightarrow> (error + forecast_row list \<times> summary_dict) \<times> event list" where
  "slice_forecast L warning df periods freq =
     (if length df < 30 then
        (Inr ([], ErrorDict ''Insufficient historical data''), [Warning warning])
      else
        (case prepare_data df True True of
           Inl e \<Rightarrow> (Inl e, [])
         | Inr prophet_df \<Rightarrow>
            (case train L init prophet_df ''multiplicative'' (8/100) 8 ''UK'' of
               (Inl e, f1, prophet_df1) \<Rightarrow> (Inl e, trace f1)
             | (Inr u, f1, prophet_df1) \<Rightarrow>
                (case predict L f1 periods freq of
                   (Inl e, f2) \<Rightarrow> (Inl e, trace f2)
                 | (Inr fc, f2) \<Rightarrow>
                    (case get_forecast_summary f2 of
                       Inl e \<Rightarrow> (Inl e, trace f2)
                     | Inr summary \<Rightarrow>
                        (Inr (after_date (ds_max (rows prophet_df1)) fc, SummaryDict summary),
                         trace f2))))))"

definition get_product_forecast ::
  "'m prophet_lib \<Rightarrow> (string \<Rightarrow> error + raw_table) \<Rightarrow> string \<Rightarrow> int \<Rightarrow> string
     \<Rightarrow> (error + forecast_row list \<times> summary_dict) \<times> event list" where
  "get_product_forecast L db product_code periods freq =
     (case db product_code of
        Inl e \<Rightarrow> (Inl e, [])
      | Inr df \<Rightarrow>
          slice_forecast L ''Insufficient data for product (minimum 30 days recommended)''
            df periods freq)"

definition get_country_forecast ::
  "'m prophet_lib \<Rightarrow> (string \<Rightarrow> error + raw_table) \<Rightarrow> string \<Rightarrow> int \<Rightarrow> string
     \<Rightarrow> (error + forecast_row list \<times> summary_dict) \<times> event list" where
  "get_country_forecast L db country periods freq =
     (case db country of
        Inl e \<Rightarrow> (Inl e, [])
      | Inr df \<Rightarrow> slice_forecast L ''Insufficient data for country'' df periods freq)"

record comparison_row =
  cmp_date :: int
  actual_revenue :: "real option"
  predicted_revenue :: real
  difference :: "real option"
  difference_pct :: "real option"

text \<open>\<open>Series.astype(float)\<close> on the revenue cells: null becomes NaN, text that is not a
  number raises.\<close>

definition astype_float :: "raw_value \<Rightarrow> error + real option" where
  "astype_float v =
     (case v of
        Number x \<Rightarrow> Inr (Some x)
      | NoValue \<Rightarrow> Inr None
      | NonNumeric s \<Rightarrow> Inl (ValueError ''could not convert string to float''))"

fun comparison_rows ::
  "(int option \<times> raw_value) list \<Rightarrow> (int \<times> real) list \<Rightarrow> error + comparison_row list" where
  "comparison_rows [] ff = Inr []"
| "comparison_rows ((d, v) # rest) ff =
     (case d of
        None \<Rightarrow> comparison_rows rest ff
      | Some d' \<Rightarrow>
         (let matches = filter (\<lambda>(fd, p). fd = d') ff
          in if matches = [] then comparison_rows rest ff
             else
               (case astype_float v of
                  Inl e \<Rightarrow> Inl e
                | Inr revenue \<Rightarrow>
                   (case comparison_rows rest ff of
                      Inl e \<Rightarrow> Inl e
                    | Inr others \<Rightarrow>
                       Inr (map (\<lambda>(fd, p).
                              \<lparr>cmp_date = d', actual_revenue = revenue, predicted_revenue = p,
                               difference = map_option (\<lambda>r. r - p) revenue,
                               difference_pct =
                                 (case revenue of
                                    None \<Rightarrow> None
                                  | Some r \<Rightarrow> if r = 0 then None else Some ((r - p) / r * 100))\<rparr>)
                              matches @ others)))))"

definition get_forecast_comparison ::
  "'m prophet_lib \<Rightarrow> error + raw_table \<Rightarrow> bool \<Rightarrow> (error + comparison_row list) \<times> event list" where
  "get_forecast_comparison L db use_ensemble =
     (case db of
        Inl e \<Rightarrow> (Inl e, [])
      | Inr revenue_df \<Rightarrow>
         if length revenue_df < 60 then
           (Inr [], [Warning ''Insufficient data for comparison (minimum 60 days needed)''])
         else
           (let split_point = length revenue_df - 30;
                train_df = take split_point revenue_df;
                test_df = drop split_point revenue_df;
                use_ensemble = (if use_ensemble then False else use_ensemble);
                (forecast_future, t) =
                  (if \<not> use_ensemble then
                     (case prepare_data train_df False False of
                        Inl e \<Rightarrow> (Inl e, [])
                      | Inr prophet_train \<Rightarrow>
                         (case train L init prophet_train ''multiplicative'' (3/10) 5 ''UK'' of
                            (Inl e, f1, prophet_train1) \<Rightarrow> (Inl e, trace f1)
                          | (Inr u, f1, prophet_train1) \<Rightarrow>
                             (case predict L f1 30 ''D'' of
                                (Inl e, f2) \<Rightarrow> (Inl e, trace f2)
                              | (Inr fc, f2) \<Rightarrow>
                                 (Inr (Some (map (\<lambda>r. (ds r, yhat r))
                                               (after_date (ds_max (rows prophet_train1)) fc))),
                                  trace f2))))
                   else (Inr None, []))
            in case forecast_future of
                 Inl e \<Rightarrow> (Inl e, t)
               | Inr ffo \<Rightarrow>
                  (case to_datetime (map fst test_df) of
                     Inl e \<Rightarrow> (Inl e, t)
                   | Inr test_dates \<Rightarrow>
                      (case ffo of
                         None \<Rightarrow> (Inl UnboundLocalError, t)
                       | Some ff \<Rightarrow> (comparison_rows (zip test_dates (map snd test_df)) ff, t)))))"

subsection \<open>Sequences of calls on one forecaster\<close>

text \<open>A caller holds a \<open>SalesForecaster\<close> and calls its methods in some order. \<open>calls\<close> runs
  such a sequence and records, for each call, whether it completed (returned) or raised.\<close>

datatype op =
    Train frame string real real string
  | Predict int string
  | GetForecastSummary
  | GetForecastDataframe bool
  | CalculateAccuracy frame

definition returned :: "error + 'a \<Rightarrow> bool" where
  "returned r = (case r of Inl e \<Rightarrow> False | Inr v \<Rightarrow> True)"

fun call :: "'m prophet_lib \<Rightarrow> 'm forecaster \<Rightarrow> op \<Rightarrow> bool \<times> 'm forecaster" where
  "call L self (Train df mode cps sps holidays) =
     (case train L self df mode cps sps holidays of (r, self1, df1) \<Rightarrow> (returned r, self1))"
| "call L self (Predict periods freq) =
     (case predict L self periods freq of (r, self1) \<Rightarrow> (returned r, self1))"
| "call L self GetForecastSummary = (returned (get_forecast_summary self), self)"
| "call L self (GetForecastDataframe future_only) =
     (returned (get_forecast_dataframe self future_only), self)"
| "call L self (CalculateAccuracy actual_df) = (returned (calculate_accuracy self actual_df), self)"

fun calls :: "'m prophet_lib \<Rightarrow> 'm forecaster \<Rightarrow> op list \<Rightarrow> (op \<times> bool) list \<times> 'm forecaster" where
  "calls L self [] = ([], self)"
| "calls L self (c # cs) =
     (case call L self c of
        (ok, self1) \<Rightarrow> (case calls L self1 cs of (hist, self2) \<Rightarrow> ((c, ok) # hist, self2)))"

fun completed_train :: "op \<times> bool \<Rightarrow> bool" where
  "completed_train (Train df mode cps sps holidays, ok) = ok"
| "completed_train (c, ok) = False"

fun completed_predict :: "op \<times> bool \<Rightarrow> bool" where
  "completed_predict (Predict periods freq, ok) = ok"
| "completed_predict (c, ok) = False"

subsection \<open>The spike rule and the outlier rule in the words of the specification\<close>

definition mean :: "real list \<Rightarrow> real" where
  "mean xs = sum_list xs / real (length xs)"

definition sample_std :: "real list \<Rightarrow> real" where
  "sample_std xs = sqrt ((\<Sum>x\<leftarrow>xs. (x - mean xs)\<^sup>2) / real (length xs - 1))"

text \<open>The threshold of position \<open>i\<close>: rolling mean plus twice the rolling standard deviation
  of the seven values centred at \<open>i\<close>; at the boundary, where there is no such window, the
  mean and the standard deviation of the whole series.\<close>

definition spec_threshold :: "real list \<Rightarrow> nat \<Rightarrow> real" where
  "spec_threshold ys i =
     (if 3 \<le> i \<and> i + 3 < length ys
      then mean (take 7 (drop (i - 3) ys)) + 2 * sample_std (take 7 (drop (i - 3) ys))
      else mean ys + 2 * sample_std ys)"

definition spec_flagged :: "prow list \<Rightarrow> prow list" where
  "spec_flagged rs =
     map (\<lambda>i. (rs ! i)\<lparr>is_spike := Some (if y (rs ! i) > spec_threshold (map y rs) i then 1 else 0)\<rparr>)
       [0..<length rs]"

definition within_iqr :: "real \<Rightarrow> real \<Rightarrow> real \<Rightarrow> bool" where
  "within_iqr Q1 Q3 v = (Q1 - 3 * (Q3 - Q1) \<le> v \<and> v \<le> Q3 + 3 * (Q3 - Q1))"

text \<open>The rows of a raw table that have a date and a number, in their order.\<close>

definition clean_rows :: "raw_table \<Rightarrow> prow list" where
  "clean_rows df =
     concat (map (\<lambda>(d, v). case (d, v) of
                    (Date d', Number v') \<Rightarrow> [\<lparr>ds = d', y = v', is_spike = None, dow = None\<rparr>]
                  | _ \<Rightarrow> []) df)"

definition parseable :: "raw_table \<Rightarrow> bool" where
  "parseable df = list_all (\<lambda>(d, v). case d of BadDate s \<Rightarrow> False | _ \<Rightarrow> True) df"

subsection \<open>Example data\<close>

text \<open>A library behaviour used in the concrete runs below: the fit needs two rows and
  remembers the dates, the future frame extends them by \<open>periods\<close> days, and the
  prediction is flat.\<close>

definition example_lib :: "int list prophet_lib" where
  "example_lib =
     \<lparr>lib_init = (\<lambda>mode. if mode = ''additive'' \<or> mode = ''multiplicative'' then None
                         else Some (ValueError ''seasonality_mode must be additive or multiplicative'')),
      lib_add_country_holidays = (\<lambda>c. None),
      lib_fit = (\<lambda>m df. if length (rows df) < 2
                         then Inl (ValueError ''Dataframe has less than 2 non-NaN rows.'')
                         else Inr (map ds (rows df))),
      lib_make_future_dataframe = (\<lambda>h periods freq. Inr (h @ map (\<lambda>k. last h + k) [1..periods])),
      lib_predict = (\<lambda>m h future.
                       Inr (map (\<lambda>r. \<lparr>ds = ds r, yhat = 100, yhat_lower = 90, yhat_upper = 110,
                                      trend = 100\<rparr>) future))\<rparr>"

text \<open>A forecast over the history of days 0, 20 and 40 and a horizon of one day.\<close>

definition example_forecast :: "forecast_row list" where
  "example_forecast =
     [\<lparr>ds = 0, yhat = 10, yhat_lower = 5, yhat_upper = 15, trend = 3\<rparr>,
      \<lparr>ds = 20, yhat = 20, yhat_lower = 18, yhat_upper = 24, trend = 2\<rparr>,
      \<lparr>ds = 40, yhat = 30, yhat_lower = 27, yhat_upper = 33, trend = 1\<rparr>,
      \<lparr>ds = 41, yhat = 40, yhat_lower = 39, yhat_upper = 45, trend = 2\<rparr>]"

definition daily_forecast :: "nat \<Rightarrow> forecast_row list" where
  "daily_forecast n =
     map (\<lambda>i. \<lparr>ds = int i, yhat = real i, yhat_lower = real i - 1, yhat_upper = real i + 1,
               trend = 1\<rparr>) [0..<n]"

definition holding :: "forecast_row list \<Rightarrow> int list forecaster" where
  "holding fc = init\<lparr>forecast_df := Some fc\<rparr>"

text \<open>Three days of revenue, fewer than the 30 the orchestrators look for.\<close>

definition three_days :: raw_table where
  "three_days = [(Date 0, Number 100), (Date 1, Number 100), (Date 2, Number 100)]"

definition flat_row :: "int \<Rightarrow> forecast_row" where
  "flat_row d = \<lparr>ds = d, yhat = 100, yhat_lower = 90, yhat_upper = 110, trend = 100\<rparr>"

definition plain_row :: "int \<Rightarrow> real \<Rightarrow> prow" where
  "plain_row d v = \<lparr>ds = d, y = v, is_spike = None, dow = None\<rparr>"

definition one_row_frame :: frame where
  "one_row_frame = \<lparr>columns = [''ds'', ''y''], rows = [plain_row 0 100]\<rparr>"

text \<open>A prepared frame that carries spike flags: Thursday 1970-01-01 and the Friday after.\<close>

definition spike_frame :: frame where
  "spike_frame =
     \<lparr>columns = [''ds'', ''y'', ''is_spike''],
      rows = [\<lparr>ds = 0, y = 100, is_spike = Some 0, dow = None\<rparr>,
              \<lparr>ds = 1, y = 500, is_spike = Some 1, dow = None\<rparr>]\<rparr>"

text \<open>A table whose first row has text in the value column.\<close>

definition malformed_table :: raw_table where
  "malformed_table = [(Date 0, NonNumeric ''n/a''), (Date 1, Number 5)]"

text \<open>A daily series of \<open>n\<close> days that is flat at 1 except for one day at 100, as the raw
  table and as the rows it is cleaned to.\<close>

definition spiky_series :: "nat \<Rightarrow> raw_table" where
  "spiky_series n = map (\<lambda>i. (Date (int i), Number (if i = 15 then 100 else 1))) [0..<n]"

definition spiky_rows :: "nat \<Rightarrow> prow list" where
  "spiky_rows n = map (\<lambda>i. plain_row (int i) (if i = 15 then 100 else 1)) [0..<n]"

section \<open>Properties\<close>

subsection \<open>Series primitives\<close>

lemma iloc_from_end:
  "0 < k \<Longrightarrow> k \<le> length xs \<Longrightarrow> iloc xs (- int k) = Inr (xs ! (length xs - k))"
  by (auto simp: iloc_def nat_diff_distrib' intro!: arg_cong[where f="(!) xs"])

lemma iloc_last: "xs \<noteq> [] \<Longrightarrow> iloc xs (-1) = Inr (last xs)"
  using iloc_from_end[of 1 xs] by (cases xs) (simp_all add: last_conv_nth)

lemma iloc_first: "xs \<noteq> [] \<Longrightarrow> iloc xs 0 = Inr (hd xs)"
  by (simp add: iloc_def hd_conv_nth)

lemma iloc_empty: "iloc [] i = Inl IndexError"
  by (simp add: iloc_def)

lemma series_sum_sum_list: "series_sum xs = sum_list xs"
proof -
  have "foldl (+) a xs = a + sum_list xs" for a :: real
    by (induction xs arbitrary: a) (simp_all add: add.assoc)
  from this[of 0] show ?thesis by (simp add: series_sum_def)
qed

lemma series_min_Min: "xs \<noteq> [] \<Longrightarrow> series_min xs = Some (Min (set xs))"
proof (cases xs)
  case (Cons a rest)
  have "fold min rest a = Min (set (a # rest))" by (rule Min.set_eq_fold[symmetric])
  with Cons show ?thesis by (simp add: series_min_def)
qed simp

lemma series_max_Max: "xs \<noteq> [] \<Longrightarrow> series_max xs = Some (Max (set xs))"
proof (cases xs)
  case (Cons a rest)
  have "fold max rest a = Max (set (a # rest))" by (rule Max.set_eq_fold[symmetric])
  with Cons show ?thesis by (simp add: series_max_def)
qed simp

text \<open>In a table of strictly increasing dates, the rows after the date of row \<open>k\<close> are the
  rows after row \<open>k\<close>.\<close>

lemma filter_gt_nth_strict:
  assumes "sorted_wrt (<) (map f xs)" and "k < length xs"
  shows "filter (\<lambda>x. f x > (f (xs ! k) :: int)) xs = drop (Suc k) xs"
proof -
  have nth_less: "f (xs ! i) < f (xs ! j)" if "i < j" "j < length xs" for i j
    using assms(1) that by (simp add: sorted_wrt_iff_nth_less)
  have a: "filter (\<lambda>x. f x > f (xs ! k)) (take (Suc k) xs) = []"
  proof -
    have "\<not> f x > f (xs ! k)" if "x \<in> set (take (Suc k) xs)" for x
    proof -
      from that obtain i where i: "i < Suc k" "i < length xs" "x = xs ! i"
        by (auto simp: in_set_conv_nth)
      show ?thesis
      proof (cases "i = k")
        case True with i show ?thesis by simp
      next
        case False
        with i have "i < k" by simp
        from nth_less[OF this assms(2)] i show ?thesis by simp
      qed
    qed
    then show ?thesis by (simp add: filter_empty_conv)
  qed
  have b: "filter (\<lambda>x. f x > f (xs ! k)) (drop (Suc k) xs) = drop (Suc k) xs"
  proof -
    have "f x > f (xs ! k)" if "x \<in> set (drop (Suc k) xs)" for x
    proof -
      from that obtain i where i: "i < length xs - Suc k" "x = xs ! (Suc k + i)"
        by (auto simp: in_set_conv_nth)
      then have "k < Suc k + i" "Suc k + i < length xs" by simp_all
      from nth_less[OF this] i show ?thesis by simp
    qed
    then show ?thesis by (simp add: filter_id_conv)
  qed
  have "filter (\<lambda>x. f x > f (xs ! k)) xs
      = filter (\<lambda>x. f x > f (xs ! k)) (take (Suc k) xs @ drop (Suc k) xs)"
    by simp
  also have "\<dots> = drop (Suc k) xs"
    unfolding filter_append a b by simp
  finally show ?thesis .
qed

subsection \<open>The summary of a forecast\<close>

lemma future_window_nonempty:
  assumes "fc \<noteq> []"
  shows "future_window fc = Inr (filter (\<lambda>r. ds r > ds (last fc) - 30) fc)"
    and "filter (\<lambda>r. ds r > ds (last fc) - 30) fc \<noteq> []"
proof -
  from assms have "iloc (map ds fc) (-1) = Inr (ds (last fc))"
    by (simp add: iloc_last last_map)
  then show "future_window fc = Inr (filter (\<lambda>r. ds r > ds (last fc) - 30) fc)"
    by (simp add: future_window_def)
  from assms have "last fc \<in> set fc" by simp
  then show "filter (\<lambda>r. ds r > ds (last fc) - 30) fc \<noteq> []"
    by (auto simp: filter_empty_conv intro!: bexI[of _ "last fc"])
qed

text \<open>On an empty forecast table the summary raises: \<open>iloc[-1]\<close> has no row to read.\<close>

lemma get_forecast_summary_empty:
  "forecast_df self = Some [] \<Longrightarrow> get_forecast_summary self = Inl IndexError"
  by (simp add: get_forecast_summary_def future_window_def iloc_empty)

lemma get_forecast_summary_value:
  assumes "forecast_df self = Some fc" and "fc \<noteq> []"
  shows "get_forecast_summary self =
    (let W = filter (\<lambda>r. ds r > ds (last fc) - 30) fc in
     Inr \<lparr>avg_predicted_value = series_mean (map yhat W),
          total_predicted_value = series_sum (map yhat W),
          min_predicted_value = series_min (map yhat W),
          max_predicted_value = series_max (map yhat W),
          avg_uncertainty = series_mean (map (\<lambda>r. yhat_upper r - yhat_lower r) W),
          trend_direction = (if trend (last W) > trend (hd W) then ''increasing'' else ''decreasing''),
          accuracy_metrics = None\<rparr>)"
proof -
  let ?W = "filter (\<lambda>r. ds r > ds (last fc) - 30) fc"
  note w = future_window_nonempty[OF assms(2)]
  have tl: "iloc (map trend ?W) (-1) = Inr (trend (last ?W))"
    using w(2) by (simp add: iloc_last last_map)
  have th: "iloc (map trend ?W) 0 = Inr (trend (hd ?W))"
    using w(2) by (simp add: iloc_first hd_map)
  show ?thesis
    using assms(1) w(1) tl th by (simp add: get_forecast_summary_def Let_def)
qed

text \<open>
  Claim C4. For every (non-empty) forecast table held by the forecaster, the summary is
  computed over exactly the rows whose date is strictly greater than the date of the final
  row minus 30 days: the average, total, minimum and maximum of \<open>yhat\<close> and the average of
  \<open>yhat_upper - yhat_lower\<close> are those of that window, which is never empty. The window is
  cut from the whole table, so it holds fitted historical rows when the horizon is shorter
  than 30 days.
\<close>

theorem summary_over_trailing_window:
  assumes "forecast_df self = Some fc" and "fc \<noteq> []"
  shows "\<exists>s. get_forecast_summary self = Inr s \<and>
     (let W = filter (\<lambda>r. ds r > ds (last fc) - 30) fc in
        W \<noteq> [] \<and>
        avg_predicted_value s = Some (sum_list (map yhat W) / real (length W)) \<and>
        total_predicted_value s = sum_list (map yhat W) \<and>
        min_predicted_value s = Some (Min (yhat ` set W)) \<and>
        max_predicted_value s = Some (Max (yhat ` set W)) \<and>
        avg_uncertainty s =
          Some (sum_list (map (\<lambda>r. yhat_upper r - yhat_lower r) W) / real (length W)))"
proof -
  let ?W = "filter (\<lambda>r. ds r > ds (last fc) - 30) fc"
  note w = future_window_nonempty[OF assms(2)]
  have m: "map yhat ?W \<noteq> []" using w(2) by simp
  show ?thesis
    using get_forecast_summary_value[OF assms] w(2) series_min_Min[OF m] series_max_Max[OF m]
    by (simp add: Let_def series_mean_def series_sum_sum_list)
qed

text \<open>The example forecast has a horizon of one day: its window is the future day 41 and
  the historical days 20 and 40.\<close>

theorem summary_over_trailing_window_witness:
  "forecast_df (holding example_forecast) = Some example_forecast \<and> example_forecast \<noteq> [] \<and>
   (\<exists>s. get_forecast_summary (holding example_forecast) = Inr s \<and>
      filter (\<lambda>r. ds r > ds (last example_forecast) - 30) example_forecast = tl example_forecast \<and>
      avg_predicted_value s = Some 30 \<and> total_predicted_value s = 90 \<and>
      min_predicted_value s = Some 20 \<and> max_predicted_value s = Some 40 \<and>
      avg_uncertainty s = Some 6)"
  using summary_over_trailing_window[of "holding example_forecast" example_forecast]
  by (simp add: holding_def init_def example_forecast_def Let_def)

text \<open>
  Claim C8. Whenever a summary is produced, \<open>trend_direction\<close> is \<open>increasing\<close> exactly when
  the trend of the last row of the window strictly exceeds the trend of its first row, and
  \<open>decreasing\<close> otherwise; it is always one of these two values.
\<close>

theorem trend_direction_two_valued:
  assumes "get_forecast_summary self = Inr s"
  shows "\<exists>fc. forecast_df self = Some fc \<and> fc \<noteq> [] \<and>
     (let W = filter (\<lambda>r. ds r > ds (last fc) - 30) fc in
        W \<noteq> [] \<and>
        (trend_direction s = ''increasing'') = (trend (last W) > trend (hd W)) \<and>
        (trend_direction s = ''decreasing'') = (\<not> trend (last W) > trend (hd W)) \<and>
        trend_direction s \<in> {''increasing'', ''decreasing''})"
proof -
  from assms obtain fc where fc: "forecast_df self = Some fc"
    by (auto simp: get_forecast_summary_def split: option.splits)
  have ne: "fc \<noteq> []"
    using assms fc get_forecast_summary_empty[of self] by auto
  let ?W = "filter (\<lambda>r. ds r > ds (last fc) - 30) fc"
  from assms get_forecast_summary_value[OF fc ne]
  have "trend_direction s = (if trend (last ?W) > trend (hd ?W) then ''increasing'' else ''decreasing'')"
    by (auto simp: Let_def)
  then show ?thesis using fc ne future_window_nonempty(2)[OF ne] by (auto simp: Let_def)
qed

text \<open>In the example the trend is 2 at the first row of the window (day 20) and 2 at its last
  row (day 41): flat, not a strict rise, so the direction is \<open>decreasing\<close>.\<close>

theorem trend_direction_two_valued_witness:
  "\<exists>s. get_forecast_summary (holding example_forecast) = Inr s \<and>
       trend_direction s = ''decreasing''"
proof -
  obtain s where s: "get_forecast_summary (holding example_forecast) = Inr s"
    using get_forecast_summary_value[of "holding example_forecast" example_forecast]
    by (auto simp: holding_def init_def example_forecast_def Let_def)
  from trend_direction_two_valued[OF s] show ?thesis using s
    by (simp add: holding_def init_def example_forecast_def Let_def)
qed

subsection \<open>The future rows of a forecast\<close>

lemma sorted_daily_forecast: "sorted_wrt (<) (map ds (daily_forecast n))"
  by (simp add: daily_forecast_def sorted_wrt_map sorted_wrt_upt o_def)

text \<open>On an empty forecast table \<open>get_forecast_dataframe\<close> raises: \<open>iloc[0]\<close> has no row.\<close>

lemma get_forecast_dataframe_empty:
  "forecast_df self = Some [] \<Longrightarrow> get_forecast_dataframe self True = Inl IndexError"
  by (simp add: get_forecast_dataframe_def iloc_empty)

text \<open>
  Claim C10. For every (non-empty) forecast table with strictly increasing dates,
  \<open>get_forecast_dataframe\<close> with \<open>future_only = True\<close> returns exactly the last 30 rows when
  the table has more than 30 rows, and every row except the first when it has 30 rows or
  fewer. The horizon passed to \<open>predict\<close> does not occur.
\<close>

theorem future_only_last_30_rows:
  assumes "forecast_df self = Some fc" and "sorted_wrt (<) (map ds fc)" and "fc \<noteq> []"
  shows "get_forecast_dataframe self True =
    Inr (map rename_columns (if length fc > 30 then drop (length fc - 30) fc else tl fc))"
proof (cases "length fc > 30")
  case True
  then have "iloc (map ds fc) (-31) = Inr (map ds fc ! (length fc - 31))"
    using iloc_from_end[of 31 "map ds fc"] by simp
  moreover have "filter (\<lambda>r. ds r > ds (fc ! (length fc - 31))) fc = drop (Suc (length fc - 31)) fc"
    using filter_gt_nth_strict[OF assms(2), of "length fc - 31"] True by simp
  moreover have "Suc (length fc - 31) = length fc - 30" using True by simp
  ultimately show ?thesis using True assms(1)
    by (simp add: get_forecast_dataframe_def)
next
  case False
  have "iloc (map ds fc) 0 = Inr (ds (fc ! 0))"
    using assms(3) by (simp add: iloc_first hd_conv_nth hd_map)
  moreover have "filter (\<lambda>r. ds r > ds (fc ! 0)) fc = drop (Suc 0) fc"
    using filter_gt_nth_strict[OF assms(2), of 0] assms(3) by simp
  ultimately show ?thesis using False assms(1)
    by (simp add: get_forecast_dataframe_def drop_Suc)
qed

theorem future_only_last_30_rows_witness:
  "forecast_df (holding (daily_forecast 32)) = Some (daily_forecast 32) \<and>
   sorted_wrt (<) (map ds (daily_forecast 32)) \<and> daily_forecast 32 \<noteq> [] \<and>
   get_forecast_dataframe (holding (daily_forecast 32)) True
     = Inr (map rename_columns (drop 2 (daily_forecast 32)))"
  using future_only_last_30_rows[of "holding (daily_forecast 32)" "daily_forecast 32"]
  by (simp add: holding_def init_def sorted_daily_forecast) (simp add: daily_forecast_def)

subsection \<open>The state of the forecaster\<close>

lemma train_state:
  assumes "train L self df mode cps sps holidays = (r, self1, df1)"
  shows "trained self1 = (trained self \<or> returned r)" and "forecast_df self1 = forecast_df self"
  using assms
  by (auto simp: train_def Let_def returned_def split: option.splits sum.splits prod.splits if_splits)

lemma predict_state:
  assumes "predict L self periods freq = (r, self1)"
  shows "trained self1 = trained self"
    and "\<not> returned r \<Longrightarrow> forecast_df self1 = forecast_df self"
  using assms
  by (auto simp: predict_def Let_def returned_def split: option.splits sum.splits prod.splits if_splits)

lemma call_trained:
  assumes "call L self c = (ok, self1)" and "\<not> trained self" and "\<not> completed_train (c, ok)"
  shows "\<not> trained self1"
  using assms
  by (cases c) (auto split: prod.splits dest: train_state(1) predict_state(1))

lemma call_forecast_df:
  assumes "call L self c = (ok, self1)" and "forecast_df self = None"
    and "\<not> completed_predict (c, ok)"
  shows "forecast_df self1 = None"
  using assms
  by (cases c) (auto split: prod.splits dest: train_state(2) predict_state(2))

text \<open>\<open>trained\<close> stays false until a \<open>train\<close> call completes, and \<open>forecast_df\<close> stays unset
  until a \<open>predict\<close> call completes: induction on the sequence of calls, for any state.\<close>

lemma calls_trained:
  "calls L self ops = (hist, self1) \<Longrightarrow> \<not> trained self \<Longrightarrow>
     list_all (\<lambda>e. \<not> completed_train e) hist \<Longrightarrow> \<not> trained self1"
proof (induction ops arbitrary: self hist self1)
  case Nil
  then show ?case by simp
next
  case (Cons c cs)
  obtain ok s1 where c: "call L self c = (ok, s1)" by (cases "call L self c")
  obtain h2 s2 where cs: "calls L s1 cs = (h2, s2)" by (cases "calls L s1 cs")
  from Cons.prems(1) c cs have eq: "hist = (c, ok) # h2" "self1 = s2" by simp_all
  from Cons.prems(3) eq have "\<not> completed_train (c, ok)" "list_all (\<lambda>e. \<not> completed_train e) h2"
    by simp_all
  with call_trained[OF c Cons.prems(2)] Cons.IH[OF cs] eq show ?case by simp
qed

lemma calls_forecast_df:
  "calls L self ops = (hist, self1) \<Longrightarrow> forecast_df self = None \<Longrightarrow>
     list_all (\<lambda>e. \<not> completed_predict e) hist \<Longrightarrow> forecast_df self1 = None"
proof (induction ops arbitrary: self hist self1)
  case Nil
  then show ?case by simp
next
  case (Cons c cs)
  obtain ok s1 where c: "call L self c = (ok, s1)" by (cases "call L self c")
  obtain h2 s2 where cs: "calls L s1 cs = (h2, s2)" by (cases "calls L s1 cs")
  from Cons.prems(1) c cs have eq: "hist = (c, ok) # h2" "self1 = s2" by simp_all
  from Cons.prems(3) eq
  have "\<not> completed_predict (c, ok)" "list_all (\<lambda>e. \<not> completed_predict e) h2"
    by simp_all
  with call_forecast_df[OF c Cons.prems(2)] Cons.IH[OF cs] eq show ?case by simp
qed

text \<open>
  Claim C7. On a forecaster that has gone through any sequence of calls since its
  construction: if no \<open>train\<close> call of the sequence completed, \<open>predict\<close> raises the
  invalid-state \<open>ValueError\<close> and leaves the forecaster as it was (nothing is asked of the
  library, the trace is the same); if no \<open>predict\<close> call completed, \<open>get_forecast_summary\<close>
  and \<open>calculate_accuracy\<close> raise their invalid-state \<open>ValueError\<close>, which is their first
  check.
\<close>

theorem invalid_state_errors:
  assumes "calls L init ops = (hist, self)"
  shows "(list_all (\<lambda>e. \<not> completed_train e) hist \<longrightarrow>
            predict L self periods freq =
              (Inl (ValueError ''Model must be trained before making predictions''), self)) \<and>
         (list_all (\<lambda>e. \<not> completed_predict e) hist \<longrightarrow>
            get_forecast_summary self =
              Inl (ValueError ''No forecast available. Run predict() first.'') \<and>
            calculate_accuracy self actual_df = Inl (ValueError ''No forecast available''))"
proof (intro conjI impI)
  assume "list_all (\<lambda>e. \<not> completed_train e) hist"
  with calls_trained[OF assms] have "\<not> trained self" by (simp add: init_def)
  then show "predict L self periods freq =
      (Inl (ValueError ''Model must be trained before making predictions''), self)"
    by (simp add: predict_def)
next
  assume "list_all (\<lambda>e. \<not> completed_predict e) hist"
  with calls_forecast_df[OF assms] have n: "forecast_df self = None" by (simp add: init_def)
  then show "get_forecast_summary self =
      Inl (ValueError ''No forecast available. Run predict() first.'')"
    by (simp add: get_forecast_summary_def)
  from n show "calculate_accuracy self actual_df = Inl (ValueError ''No forecast available'')"
    by (simp add: calculate_accuracy_def)
qed

text \<open>A \<open>train\<close> on one row fails in the fit, the \<open>predict\<close> after it raises, and so does the
  next \<open>predict\<close> and the summary.\<close>

theorem invalid_state_errors_witness:
  "fst (calls example_lib init
          [Train one_row_frame ''multiplicative'' (8/100) 8 ''UK'', Predict 30 ''D''])
     = [(Train one_row_frame ''multiplicative'' (8/100) 8 ''UK'', False),
        (Predict 30 ''D'', False)] \<and>
   fst (predict example_lib
          (snd (calls example_lib init
                  [Train one_row_frame ''multiplicative'' (8/100) 8 ''UK'', Predict 30 ''D'']))
          30 ''D'')
     = Inl (ValueError ''Model must be trained before making predictions'') \<and>
   get_forecast_summary
     (snd (calls example_lib init
             [Train one_row_frame ''multiplicative'' (8/100) 8 ''UK'', Predict 30 ''D'']))
     = Inl (ValueError ''No forecast available. Run predict() first.'')"
proof -
  let ?ops = "[Train one_row_frame ''multiplicative'' (8/100) 8 ''UK'', Predict 30 ''D'']"
  let ?h = "fst (calls example_lib init ?ops)"
  let ?s = "snd (calls example_lib init ?ops)"
  have h: "?h = [(Train one_row_frame ''multiplicative'' (8/100) 8 ''UK'', False),
                 (Predict 30 ''D'', False)]"
    by (simp add: train_def predict_def init_def example_lib_def one_row_frame_def plain_row_def
          returned_def Let_def)
  have t: "list_all (\<lambda>e. \<not> completed_train e) ?h"
    and q: "list_all (\<lambda>e. \<not> completed_predict e) ?h"
    unfolding h by simp_all
  have p: "calls example_lib init ?ops = (?h, ?s)"
    by (rule surjective_pairing)
  from invalid_state_errors[OF p, of 30 "''D''" one_row_frame] t q
  have "predict example_lib ?s 30 ''D'' =
          (Inl (ValueError ''Model must be trained before making predictions''), ?s)"
    and "get_forecast_summary ?s = Inl (ValueError ''No forecast available. Run predict() first.'')"
    by blast+
  with h show ?thesis by (simp del: calls.simps)
qed

subsection \<open>What \<open>prepare_data\<close> returns\<close>

lemma to_datetime_parseable:
  "parseable df \<Longrightarrow>
     to_datetime (map fst df) = Inr (map (\<lambda>(d, v). case d of Date d' \<Rightarrow> Some d' | _ \<Rightarrow> None) df)"
  by (induction df) (auto simp: parseable_def split: raw_date.splits)

lemma to_datetime_unparseable:
  "\<not> parseable df \<Longrightarrow> \<exists>s. to_datetime (map fst df) = Inl (DateParseError s)"
  by (induction df) (auto simp: parseable_def split: raw_date.splits sum.splits)

lemma dropna_clean_rows:
  "dropna (zip (map (\<lambda>(d, v). case d of Date d' \<Rightarrow> Some d' | _ \<Rightarrow> None) df)
               (to_numeric_coerce (map snd df))) = clean_rows df"
  by (induction df)
     (auto simp: dropna_def clean_rows_def to_numeric_coerce_def
           split: raw_date.splits raw_value.splits)

lemma prepare_data_parseable:
  assumes "parseable df"
  shows "prepare_data df remove_outliers detect_spikes =
    (let f0 = \<lparr>columns = [''ds'', ''y''], rows = clean_rows df\<rparr>;
         f1 = (if detect_spikes \<and> length (rows f0) > 30 then detect_spikes_step f0 else f0);
         f2 = (if remove_outliers \<and> length (rows f1) > 30 then remove_outliers_step f1 else f1)
     in Inr (sort_values_ds f2))"
  by (simp add: prepare_data_def to_datetime_parseable[OF assms] dropna_clean_rows Let_def)

lemma prepare_data_unparseable:
  "\<not> parseable df \<Longrightarrow> \<exists>s. prepare_data df remove_outliers detect_spikes = Inl (DateParseError s)"
  using to_datetime_unparseable[of df] by (auto simp: prepare_data_def)

lemma prepare_data_plain:
  assumes "parseable df"
  shows "prepare_data df False False =
    Inr \<lparr>columns = [''ds'', ''y''], rows = sort_key ds (clean_rows df)\<rparr>"
  by (simp add: prepare_data_parseable[OF assms] sort_values_ds_def)

subsection \<open>The orchestrators\<close>

lemmas eval_defs = get_revenue_forecast_def prepare_data_def to_numeric_coerce_def dropna_def
  sort_values_ds_def train_def predict_def future_frame_def get_forecast_summary_def
  future_window_def iloc_def series_mean_def series_sum_def series_min_def series_max_def
  calculate_accuracy_def merge_inner_def after_date_def ds_max_def init_def example_lib_def
  three_days_def Let_def flat_row_def upto.simps plain_row_def one_row_frame_def

text \<open>
  Claim C9. The outcome of \<open>get_revenue_forecast\<close> (result and trace) is the same for
  \<open>use_ensemble = True\<close> and \<open>use_ensemble = False\<close>, whatever the other arguments, the
  database and the library are; so is that of \<open>get_forecast_comparison\<close>.
\<close>

theorem use_ensemble_has_no_influence:
  "get_revenue_forecast L db periods freq include_history mode True
     = get_revenue_forecast L db periods freq include_history mode False \<and>
   get_forecast_comparison L db True = get_forecast_comparison L db False"
  by (simp add: get_revenue_forecast_def get_forecast_comparison_def)

theorem use_ensemble_has_no_influence_witness:
  "get_revenue_forecast example_lib (Inr three_days) 2 ''D'' True ''multiplicative'' True
     = get_revenue_forecast example_lib (Inr three_days) 2 ''D'' True ''multiplicative'' False \<and>
   fst (get_revenue_forecast example_lib (Inr three_days) 2 ''D'' True ''multiplicative'' False)
     \<noteq> Inr None"
  using use_ensemble_has_no_influence[of example_lib "Inr three_days" 2 "''D''" True "''multiplicative''"]
  by (simp add: eval_defs)

lemma train_trace:
  assumes "train L self df mode cps sps holidays = (r, self1, df1)"
    and "lib_init L mode = None" and "''is_spike'' \<notin> set (columns df)"
  shows "ProphetFit df \<in> set (trace self1)" and "df1 = df"
  using assms
  by (auto simp: train_def Let_def split: option.splits sum.splits prod.splits if_splits)

lemma predict_trace:
  assumes "predict L self periods freq = (r, self1)"
  shows "set (trace self) \<subseteq> set (trace self1)"
  using assms
  by (auto simp: predict_def Let_def split: option.splits sum.splits prod.splits if_splits)

lemma revenue_fits:
  assumes "parseable df" and "lib_init L ''additive'' = None"
  shows "ProphetFit \<lparr>columns = [''ds'', ''y''], rows = sort_key ds (clean_rows df)\<rparr>
      \<in> set (snd (get_revenue_forecast L (Inr df) periods freq include_history mode use_ensemble))"
proof -
  let ?fr = "\<lparr>columns = [''ds'', ''y''], rows = sort_key ds (clean_rows df)\<rparr>"
  obtain r f1 d1 where t: "train L init ?fr ''additive'' (18/100) 12 ''UK'' = (r, f1, d1)"
    by (cases "train L init ?fr ''additive'' (18/100) 12 ''UK''") auto
  have fit: "ProphetFit ?fr \<in> set (trace f1)"
    using train_trace(1)[OF t assms(2)] by simp
  obtain r2 f2 where p: "predict L f1 periods freq = (r2, f2)"
    by (cases "predict L f1 periods freq") auto
  have fit2: "ProphetFit ?fr \<in> set (trace f2)"
    using fit predict_trace[OF p] by auto
  show ?thesis
    using fit fit2 t p
    by (simp add: get_revenue_forecast_def prepare_data_plain[OF assms(1)] Let_def
          split: sum.splits)
qed

lemma revenue_warns:
  assumes "length df < 30" "parseable df"
  shows "take 1 (snd (get_revenue_forecast L (Inr df) periods freq include_history mode use_ensemble))
     = [Warning ''Insufficient historical data for accurate forecasting (minimum 30 days recommended)'']"
  using assms(1)
  by (simp add: get_revenue_forecast_def prepare_data_plain[OF assms(2)] Let_def
          split: sum.splits prod.splits)

lemma slice_short:
  "length df < 30 \<Longrightarrow> slice_forecast L w df periods freq =
     (Inr ([], ErrorDict ''Insufficient historical data''), [Warning w])"
  by (simp add: slice_forecast_def)

text \<open>
  Claim C1, as stated, fails for the revenue orchestrator: on three days of history it
  raises nothing; it logs the warning, fits a model on the three rows, predicts, and returns
  the forecast with its summary.
\<close>

theorem revenue_forecast_short_history_counterexample:
  "length three_days < 30 \<and>
   get_revenue_forecast example_lib (Inr three_days) 2 ''D'' True ''multiplicative'' True
   = (Inr (Some (map flat_row [0, 1, 2, 3, 4],
        \<lparr>avg_predicted_value = Some 100, total_predicted_value = 500,
         min_predicted_value = Some 100, max_predicted_value = Some 100,
         avg_uncertainty = Some 20, trend_direction = ''decreasing'',
         accuracy_metrics = Some \<lparr>mae = Some 0, rmse = Some 0, mape = Some 0,
                                   accuracy_percent = Some 100\<rparr>\<rparr>)),
      [Warning ''Insufficient historical data for accurate forecasting (minimum 30 days recommended)'',
       ProphetFit \<lparr>columns = [''ds'', ''y''],
                   rows = [plain_row 0 100, plain_row 1 100, plain_row 2 100]\<rparr>,
       ProphetPredict (map (\<lambda>d. \<lparr>ds = d, future_spike = None\<rparr>) [0, 1, 2, 3, 4])])"
  by (simp add: eval_defs)

text \<open>
  Claim C1, amended. For every slice with fewer than 30 rows (one per distinct date), the
  product and country orchestrators return the empty table with
  \<open>{'error': 'Insufficient historical data'}\<close> after one warning, and nothing is asked of
  the library. The revenue orchestrator only logs a warning: when the dates of the slice
  parse and Prophet accepts the seasonality mode, it goes on to fit a model on the prepared
  slice.
\<close>

theorem insufficient_data_handling:
  assumes "length df < 30"
  shows "(db code = Inr df \<longrightarrow>
            get_product_forecast L db code periods freq =
              (Inr ([], ErrorDict ''Insufficient historical data''),
               [Warning ''Insufficient data for product (minimum 30 days recommended)''])) \<and>
         (db code = Inr df \<longrightarrow>
            get_country_forecast L db code periods freq =
              (Inr ([], ErrorDict ''Insufficient historical data''),
               [Warning ''Insufficient data for country''])) \<and>
         (parseable df \<and> lib_init L ''additive'' = None \<longrightarrow>
            take 1 (snd (get_revenue_forecast L (Inr df) periods freq include_history mode use_ensemble))
              = [Warning ''Insufficient historical data for accurate forecasting (minimum 30 days recommended)''] \<and>
            ProphetFit \<lparr>columns = [''ds'', ''y''], rows = sort_key ds (clean_rows df)\<rparr>
              \<in> set (snd (get_revenue_forecast L (Inr df) periods freq include_history mode use_ensemble)))"
proof (intro conjI impI)
  assume "db code = Inr df"
  then show "get_product_forecast L db code periods freq =
      (Inr ([], ErrorDict ''Insufficient historical data''),
       [Warning ''Insufficient data for product (minimum 30 days recommended)''])"
    by (simp add: get_product_forecast_def slice_short[OF assms])
next
  assume "db code = Inr df"
  then show "get_country_forecast L db code periods freq =
      (Inr ([], ErrorDict ''Insufficient historical data''), [Warning ''Insufficient data for country''])"
    by (simp add: get_country_forecast_def slice_short[OF assms])
next
  assume a: "parseable df \<and> lib_init L ''additive'' = None"
  then have pa: "parseable df" and li: "lib_init L ''additive'' = None" by simp_all
  show "take 1 (snd (get_revenue_forecast L (Inr df) periods freq include_history mode use_ensemble))
      = [Warning ''Insufficient historical data for accurate forecasting (minimum 30 days recommended)'']"
    by (rule revenue_warns[OF assms pa])
  show "ProphetFit \<lparr>columns = [''ds'', ''y''], rows = sort_key ds (clean_rows df)\<rparr>
      \<in> set (snd (get_revenue_forecast L (Inr df) periods freq include_history mode use_ensemble))"
    by (rule revenue_fits[OF pa li])
qed

theorem insufficient_data_handling_witness:
  "length three_days < 30 \<and> parseable three_days \<and> lib_init example_lib ''additive'' = None \<and>
   get_product_forecast example_lib (\<lambda>c. Inr three_days) ''85123A'' 30 ''D'' =
      (Inr ([], ErrorDict ''Insufficient historical data''),
       [Warning ''Insufficient data for product (minimum 30 days recommended)'']) \<and>
   get_country_forecast example_lib (\<lambda>c. Inr three_days) ''France'' 30 ''D'' =
      (Inr ([], ErrorDict ''Insufficient historical data''),
       [Warning ''Insufficient data for country'']) \<and>
   ProphetFit \<lparr>columns = [''ds'', ''y''], rows = sort_key ds (clean_rows three_days)\<rparr>
      \<in> set (snd (get_revenue_forecast example_lib (Inr three_days) 30 ''D'' True
                     ''multiplicative'' True))"
  using insufficient_data_handling[of three_days "\<lambda>c. Inr three_days" "''85123A''" example_lib
          30 "''D''" True "''multiplicative''" True]
        insufficient_data_handling[of three_days "\<lambda>c. Inr three_days" "''France''" example_lib
          30 "''D''" True "''multiplicative''" True]
  by (simp add: three_days_def parseable_def example_lib_def)

subsection \<open>What \<open>train\<close> does to the frame of its caller\<close>

lemma train_keeps_plain_frame:
  assumes "train L self df mode cps sps holidays = (r, self1, df1)"
    and "''is_spike'' \<notin> set (columns df)"
  shows "df1 = df"
  using assms
  by (auto simp: train_def Let_def split: option.splits sum.splits prod.splits if_splits)

lemma train_adds_dow:
  assumes "train L self df mode cps sps holidays = (r, self1, df1)"
    and "lib_init L mode = None" and "''is_spike'' \<in> set (columns df)"
  shows "df1 = set_dow df"
  using assms
  by (auto simp: train_def Let_def split: option.splits sum.splits prod.splits if_splits)

text \<open>
  Claim C3 says that \<open>train\<close> leaves the frame of its caller unchanged, also when the frame
  carries \<open>is_spike\<close>. The code does not: \<open>df['dow'] = ...\<close> writes the column into the
  caller's frame, and \<open>df = df.drop('dow', axis=1)\<close> removes it from a new frame only. On
  \<open>spike_frame\<close> the call completes and the caller's frame has gained the column \<open>dow\<close>.
\<close>

theorem train_leaves_dow_in_caller_frame:
  "fst (train example_lib init spike_frame ''multiplicative'' (8/100) 8 ''UK'') = Inr () \<and>
   snd (snd (train example_lib init spike_frame ''multiplicative'' (8/100) 8 ''UK'')) =
     \<lparr>columns = [''ds'', ''y'', ''is_spike'', ''dow''],
      rows = [\<lparr>ds = 0, y = 100, is_spike = Some 0, dow = Some 3\<rparr>,
              \<lparr>ds = 1, y = 500, is_spike = Some 1, dow = Some 4\<rparr>]\<rparr> \<and>
   snd (snd (train example_lib init spike_frame ''multiplicative'' (8/100) 8 ''UK''))
     \<noteq> spike_frame"
  by (simp add: train_def example_lib_def init_def spike_frame_def Let_def set_dow_def
        drop_dow_def dayofweek_def)

subsection \<open>Malformed rows\<close>

lemma length_rolling: "length (rolling agg ys) = length ys"
  by (simp add: rolling_def)

lemma detect_spikes_step_points:
  "map (\<lambda>r. (ds r, y r)) (rows (detect_spikes_step f)) = map (\<lambda>r. (ds r, y r)) (rows f)"
proof -
  have "map (\<lambda>r. (ds r, y r)) (map2 (\<lambda>r t. r\<lparr>is_spike := Some (exceeds (y r) t)\<rparr>) rs ts)
      = map (\<lambda>r. (ds r, y r)) rs" if "length ts = length rs" for rs :: "prow list" and ts
    using that by (induction rs ts rule: list_induct2') simp_all
  then show ?thesis
    by (simp add: detect_spikes_step_def Let_def length_rolling fillna_def)
qed

lemma remove_outliers_step_rows:
  "set (rows (remove_outliers_step f)) \<subseteq> set (rows f)"
  by (auto simp: remove_outliers_step_def Let_def split: option.splits)

lemma clean_rows_mem:
  "r \<in> set (clean_rows df) \<Longrightarrow> (Date (ds r), Number (y r)) \<in> set df"
  by (induction df) (auto simp: clean_rows_def split: raw_date.splits raw_value.splits)

lemma prepared_points:
  assumes "prepare_data df ro dsp = Inr fr"
  shows "set (map (\<lambda>r. (ds r, y r)) (rows fr)) \<subseteq> set (map (\<lambda>r. (ds r, y r)) (clean_rows df))"
    and "\<not> ro \<Longrightarrow> mset (map (\<lambda>r. (ds r, y r)) (rows fr))
                    = mset (map (\<lambda>r. (ds r, y r)) (clean_rows df))"
proof -
  have p: "parseable df"
    using assms prepare_data_unparseable[of df ro dsp] by auto
  define f0 where "f0 = \<lparr>columns = [''ds'', ''y''], rows = clean_rows df\<rparr>"
  define f1 where "f1 = (if dsp \<and> length (rows f0) > 30 then detect_spikes_step f0 else f0)"
  define f2 where "f2 = (if ro \<and> length (rows f1) > 30 then remove_outliers_step f1 else f1)"
  let ?pr = "\<lambda>r::prow. (ds r, y r)"
  have "prepare_data df ro dsp = Inr (sort_values_ds f2)"
    unfolding prepare_data_parseable[OF p] Let_def f2_def f1_def f0_def by (rule refl)
  with assms have fr: "fr = sort_values_ds f2" by simp
  have f1: "map ?pr (rows f1) = map ?pr (clean_rows df)"
    using detect_spikes_step_points[of f0] by (simp add: f1_def f0_def)
  have f2: "set (rows f2) \<subseteq> set (rows f1)"
    using remove_outliers_step_rows[of f1] by (simp add: f2_def)
  have srt: "mset (rows fr) = mset (rows f2)"
    unfolding fr by (simp add: sort_values_ds_def)
  then have "set (rows fr) = set (rows f2)" by (metis set_mset_mset)
  with f2 have "set (map ?pr (rows fr)) \<subseteq> set (map ?pr (rows f1))" by auto
  with f1 show "set (map ?pr (rows fr)) \<subseteq> set (map ?pr (clean_rows df))" by simp
  assume "\<not> ro"
  then have "f2 = f1" by (simp add: f2_def)
  with srt have "mset (map ?pr (rows fr)) = mset (map ?pr (rows f1))"
    by (metis mset_map)
  with f1 show "mset (map ?pr (rows fr)) = mset (map ?pr (clean_rows df))" by simp
qed

text \<open>
  Claim C2, as stated, fails: a row with text in the value column raises nothing; with the
  default options \<open>prepare_data\<close> returns the frame of the other row.
\<close>

theorem non_numeric_value_counterexample:
  "(Date 0, NonNumeric ''n/a'') \<in> set malformed_table \<and>
   prepare_data malformed_table True True =
     Inr \<lparr>columns = [''ds'', ''y''], rows = [plain_row 1 5]\<rparr>"
  by (simp add: eval_defs malformed_table_def)

text \<open>
  Claim C2, amended. \<open>prepare_data\<close> raises exactly when a date cell of the table cannot
  be parsed. A non-numeric entry in the value column raises nothing: it is coerced to null
  and its row is dropped, so every row of the prepared frame comes from a row of the table
  with a date and a number, and without outlier removal the prepared frame holds exactly
  those rows.
\<close>

theorem non_numeric_values_are_dropped:
  "((\<exists>e. prepare_data df ro dsp = Inl e) \<longleftrightarrow> \<not> parseable df) \<and>
   (\<forall>fr. prepare_data df ro dsp = Inr fr \<longrightarrow>
      (\<forall>r \<in> set (rows fr). (Date (ds r), Number (y r)) \<in> set df) \<and>
      (\<not> ro \<longrightarrow> mset (map (\<lambda>r. (ds r, y r)) (rows fr))
                   = mset (map (\<lambda>r. (ds r, y r)) (clean_rows df))))"
proof (intro conjI allI impI ballI)
  show "(\<exists>e. prepare_data df ro dsp = Inl e) \<longleftrightarrow> \<not> parseable df"
    using prepare_data_unparseable[of df ro dsp] prepare_data_parseable[of df ro dsp]
    by (auto simp: Let_def)
next
  fix fr r assume a: "prepare_data df ro dsp = Inr fr" and r: "r \<in> set (rows fr)"
  from r have "(ds r, y r) \<in> set (map (\<lambda>r. (ds r, y r)) (rows fr))" by auto
  with prepared_points(1)[OF a]
  obtain r' where "r' \<in> set (clean_rows df)" "ds r' = ds r" "y r' = y r"
    by auto
  with clean_rows_mem[of r' df] show "(Date (ds r), Number (y r)) \<in> set df" by simp
next
  fix fr assume "prepare_data df ro dsp = Inr fr" "\<not> ro"
  then show "mset (map (\<lambda>r. (ds r, y r)) (rows fr))
      = mset (map (\<lambda>r. (ds r, y r)) (clean_rows df))"
    by (rule prepared_points(2))
qed

theorem non_numeric_values_are_dropped_witness:
  "parseable malformed_table \<and> (Date 0, NonNumeric ''n/a'') \<in> set malformed_table \<and>
   prepare_data malformed_table False False =
     Inr \<lparr>columns = [''ds'', ''y''], rows = [plain_row 1 5]\<rparr> \<and>
   (Date (ds (plain_row 1 5)), Number (y (plain_row 1 5))) \<in> set malformed_table"
  using non_numeric_values_are_dropped[of malformed_table False False]
  by (simp add: eval_defs malformed_table_def parseable_def)

subsection \<open>Spike detection and outlier removal\<close>

lemma filter_window_upt:
  "filter (\<lambda>j. i \<le> j + 3 \<and> j \<le> i + 3) [0..<n] = [i - 3..<min n (i + 4)]"
proof (induction n)
  case 0
  then show ?case by simp
next
  case (Suc n)
  show ?case
  proof (cases "i \<le> n + 3 \<and> n \<le> i + 3")
    case True
    then have "min (Suc n) (i + 4) = Suc n" "min n (i + 4) = n" "i - 3 \<le> n" by auto
    with True Suc show ?thesis by simp
  next
    case False
    then consider "n + 3 < i" | "i + 3 < n" by linarith
    then show ?thesis
    proof cases
      case 1
      then have "i - 3 \<ge> min (Suc n) (i + 4)" "i - 3 \<ge> min n (i + 4)" by auto
      with False Suc show ?thesis by simp
    next
      case 2
      then have "min (Suc n) (i + 4) = i + 4" "min n (i + 4) = i + 4" by auto
      with False Suc show ?thesis by simp
    qed
  qed
qed

lemma map_nth_upt_take_drop:
  "b \<le> length ys \<Longrightarrow> map ((!) ys) [a..<b] = take (b - a) (drop a ys)"
  by (rule nth_equalityI) (auto simp: min_def)

lemma rolling_window_full:
  assumes "3 \<le> i" and "i + 3 < length ys"
  shows "rolling_window ys i = take 7 (drop (i - 3) ys)" and "length (rolling_window ys i) = 7"
proof -
  from assms have m: "min (length ys) (i + 4) = i + 4" by simp
  have "rolling_window ys i = map ((!) ys) [i - 3..<i + 4]"
    by (simp add: rolling_window_def filter_window_upt m)
  also have "\<dots> = take (i + 4 - (i - 3)) (drop (i - 3) ys)"
    using assms by (intro map_nth_upt_take_drop) simp
  also have "i + 4 - (i - 3) = 7" using assms by simp
  finally show "rolling_window ys i = take 7 (drop (i - 3) ys)" .
  then show "length (rolling_window ys i) = 7" using assms by simp
qed

lemma rolling_window_short:
  assumes "i < length ys" and "\<not> (3 \<le> i \<and> i + 3 < length ys)"
  shows "length (rolling_window ys i) < 7"
  using assms by (auto simp: rolling_window_def filter_window_upt min_def)

lemma series_mean_mean: "xs \<noteq> [] \<Longrightarrow> series_mean xs = Some (mean xs)"
  by (simp add: series_mean_def mean_def series_sum_sum_list)

lemma series_std_sample_std: "2 \<le> length xs \<Longrightarrow> series_std xs = Some (sample_std xs)"
  by (simp add: series_std_def sample_std_def mean_def series_sum_sum_list Let_def)

lemma rolling_nth:
  assumes "i < length ys"
  shows "rolling agg ys ! i =
    (if 3 \<le> i \<and> i + 3 < length ys then agg (take 7 (drop (i - 3) ys)) else None)"
proof (cases "3 \<le> i \<and> i + 3 < length ys")
  case True
  with rolling_window_full[of i ys] assms show ?thesis
    by (simp add: rolling_def Let_def)
next
  case False
  with rolling_window_short[OF assms] assms show ?thesis
    by (auto simp: rolling_def Let_def)
qed

lemma threshold_nth:
  assumes "i < length ys" and "30 < length ys"
  shows "map2 spike_threshold (fillna (series_mean ys) (rolling series_mean ys))
           (fillna (series_std ys) (rolling series_std ys)) ! i = Some (spec_threshold ys i)"
proof -
  have nth: "map2 spike_threshold (fillna (series_mean ys) (rolling series_mean ys))
           (fillna (series_std ys) (rolling series_std ys)) ! i
      = spike_threshold
          (case rolling series_mean ys ! i of None \<Rightarrow> series_mean ys | Some x \<Rightarrow> Some x)
          (case rolling series_std ys ! i of None \<Rightarrow> series_std ys | Some x \<Rightarrow> Some x)"
    using assms(1) by (simp add: length_rolling fillna_def)
  show ?thesis
  proof (cases "3 \<le> i \<and> i + 3 < length ys")
    case True
    let ?w = "take 7 (drop (i - 3) ys)"
    from True have l: "length ?w = 7" by (auto simp: min_def)
    then have ne: "?w \<noteq> []" by (metis length_0_conv zero_neq_numeral)
    from l have l2: "2 \<le> length ?w" by simp
    have m: "rolling series_mean ys ! i = Some (mean ?w)"
      unfolding rolling_nth[OF assms(1)] if_P[OF True] by (rule series_mean_mean[OF ne])
    have sd: "rolling series_std ys ! i = Some (sample_std ?w)"
      unfolding rolling_nth[OF assms(1)] if_P[OF True] by (rule series_std_sample_std[OF l2])
    have "spec_threshold ys i = mean ?w + 2 * sample_std ?w"
      unfolding spec_threshold_def if_P[OF True] by (rule refl)
    then show ?thesis unfolding nth m sd by (simp add: spike_threshold_def)
  next
    case False
    from assms(2) have g: "ys \<noteq> []" "2 \<le> length ys" by auto
    have m: "rolling series_mean ys ! i = None"
      unfolding rolling_nth[OF assms(1)] if_not_P[OF False] by (rule refl)
    have sd: "rolling series_std ys ! i = None"
      unfolding rolling_nth[OF assms(1)] if_not_P[OF False] by (rule refl)
    have "spec_threshold ys i = mean ys + 2 * sample_std ys"
      unfolding spec_threshold_def if_not_P[OF False] by (rule refl)
    then show ?thesis
      unfolding nth m sd
      by (simp add: spike_threshold_def series_mean_mean[OF g(1)] series_std_sample_std[OF g(2)])
  qed
qed

lemma detect_spikes_step_flagged:
  assumes "30 < length (rows f)"
  shows "detect_spikes_step f = \<lparr>columns = columns f @ [''is_spike''], rows = spec_flagged (rows f)\<rparr>"
proof -
  let ?ys = "map y (rows f)"
  let ?th = "map2 spike_threshold (fillna (series_mean ?ys) (rolling series_mean ?ys))
           (fillna (series_std ?ys) (rolling series_std ?ys))"
  have len: "length ?th = length (rows f)"
    by (simp add: length_rolling fillna_def)
  have "map2 (\<lambda>r t. r\<lparr>is_spike := Some (exceeds (y r) t)\<rparr>) (rows f) ?th = spec_flagged (rows f)"
  proof (rule nth_equalityI)
    show "length (map2 (\<lambda>r t. r\<lparr>is_spike := Some (exceeds (y r) t)\<rparr>) (rows f) ?th)
        = length (spec_flagged (rows f))"
      using len by (simp add: spec_flagged_def)
  next
    fix i assume "i < length (map2 (\<lambda>r t. r\<lparr>is_spike := Some (exceeds (y r) t)\<rparr>) (rows f) ?th)"
    then have i: "i < length (rows f)" using len by simp
    then have "?th ! i = Some (spec_threshold ?ys i)"
      using threshold_nth[of i ?ys] assms by simp
    with i len show "map2 (\<lambda>r t. r\<lparr>is_spike := Some (exceeds (y r) t)\<rparr>) (rows f) ?th ! i
        = spec_flagged (rows f) ! i"
      by (simp add: spec_flagged_def exceeds_def)
  qed
  then show ?thesis by (simp add: detect_spikes_step_def Let_def)
qed

lemma length_spec_flagged: "length (spec_flagged rs) = length rs"
  by (simp add: spec_flagged_def)

lemma map_y_spec_flagged: "map y (spec_flagged rs) = map y rs"
  by (rule nth_equalityI) (simp_all add: spec_flagged_def)

lemma quantile_Some: "xs \<noteq> [] \<Longrightarrow> \<exists>v. quantile xs q = Some v"
  by (simp add: quantile_def Let_def)

lemma remove_outliers_step_within:
  assumes "quantile (map y (rows f)) (1/4) = Some Q1" and "quantile (map y (rows f)) (3/4) = Some Q3"
  shows "remove_outliers_step f = f\<lparr>rows := filter (\<lambda>r. within_iqr Q1 Q3 (y r)) (rows f)\<rparr>"
  using assms by (simp add: remove_outliers_step_def within_iqr_def Let_def)

lemma prepare_data_short:
  assumes "parseable df" and "length (clean_rows df) \<le> 30"
  shows "prepare_data df ro dsp = Inr \<lparr>columns = [''ds'', ''y''], rows = sort_key ds (clean_rows df)\<rparr>"
  using assms(2) by (simp add: prepare_data_parseable[OF assms(1)] sort_values_ds_def)

subsection \<open>The series with one spike\<close>

lemma parseable_spiky: "parseable (spiky_series n)"
  by (simp add: parseable_def spiky_series_def list_all_iff)

lemma clean_rows_spiky: "clean_rows (spiky_series n) = spiky_rows n"
  by (induction n) (simp_all add: clean_rows_def spiky_series_def spiky_rows_def plain_row_def)

lemma length_spiky: "length (clean_rows (spiky_series n)) = n"
  by (simp add: clean_rows_spiky spiky_rows_def)

lemma sorted_spiky: "sort_key ds (spiky_rows n) = spiky_rows n"
proof -
  have "map ds (spiky_rows n) = map int [0..<n]"
    by (simp add: spiky_rows_def plain_row_def o_def)
  moreover have "sorted (map int [0..<n])"
    by (simp add: sorted_map sorted_wrt_upt[THEN sorted_wrt_mono_rel, rotated])
  ultimately show ?thesis by (simp add: sort_key_id_if_sorted)
qed

lemma window15: "n \<ge> 19 \<Longrightarrow> take 7 (drop 12 (map y (spiky_rows n))) = [1, 1, 1, 100, 1, 1, 1]"
proof -
  assume n: "n \<ge> 19"
  have "take 7 (drop 12 (map y (spiky_rows n))) = map (\<lambda>i. if i = 15 then 100 else 1) (take 7 (drop 12 [0..<n]))"
    by (simp add: spiky_rows_def plain_row_def take_map drop_map o_def)
  also have "take 7 (drop 12 [0..<n]) = [12..<19]"
    using n by (simp add: take_upt)
  also have "[12..<19] = [12, 13, 14, 15, 16, 17, 18::nat]"
    by (simp add: upt_rec)
  finally show ?thesis by simp
qed

lemma threshold15:
  assumes "n \<ge> 19"
  shows "spec_threshold (map y (spiky_rows n)) 15 < 100"
proof -
  let ?w = "[1, 1, 1, 100, 1, 1, 1] :: real list"
  have m: "mean ?w = 106/7" by (simp add: mean_def)
  have v: "(\<Sum>x\<leftarrow>?w. (x - mean ?w)\<^sup>2) / real (length ?w - 1) = 9801/7"
    unfolding m by (simp add: power2_eq_square)
  have "sqrt (9801/7) < sqrt (42\<^sup>2)"
    by (rule real_sqrt_less_mono) simp
  then have s: "sample_std ?w < 42"
    unfolding sample_std_def v by simp
  have len: "length (map y (spiky_rows n)) = n" by (simp add: spiky_rows_def)
  have "spec_threshold (map y (spiky_rows n)) 15
      = mean (take 7 (drop 12 (map y (spiky_rows n))))
        + 2 * sample_std (take 7 (drop 12 (map y (spiky_rows n))))"
    using assms unfolding spec_threshold_def len by simp
  also have "\<dots> = mean ?w + 2 * sample_std ?w"
    unfolding window15[OF assms] by (rule refl)
  finally show ?thesis using m s by simp
qed

lemma ys_spiky:
  assumes "16 \<le> n"
  shows "map y (spiky_rows n) = replicate 15 1 @ 100 # replicate (n - 16) 1"
proof (rule nth_equalityI)
  show "length (map y (spiky_rows n)) = length (replicate 15 (1::real) @ 100 # replicate (n - 16) 1)"
    using assms by (simp add: spiky_rows_def)
next
  fix i assume "i < length (map y (spiky_rows n))"
  then have i: "i < n" by (simp add: spiky_rows_def)
  then show "map y (spiky_rows n) ! i = (replicate 15 1 @ 100 # replicate (n - 16) 1) ! i"
    by (auto simp: spiky_rows_def plain_row_def nth_append nth_Cons')
qed

lemma sort_spiky:
  assumes "16 \<le> n"
  shows "sort (map y (spiky_rows n)) = replicate (n - 1) 1 @ [100]"
proof (rule properties_for_sort)
  have "n - 1 = 15 + (n - 16)" using assms by simp
  then have "replicate (n - 1) (1::real) = replicate 15 1 @ replicate (n - 16) 1"
    by (simp only: replicate_add)
  then show "mset (replicate (n - 1) 1 @ [100]) = mset (map y (spiky_rows n))"
    unfolding ys_spiky[OF assms] by simp
  show "sorted (replicate (n - 1) 1 @ [100::real])"
    by (simp add: sorted_append)
qed

lemma quantile_ones:
  fixes q :: real
  assumes "lo + 1 < m" and "lo = nat \<lfloor>real m * q\<rfloor>"
  shows "(let s = replicate m (1::real) @ [100];
              h = real m * q;
              lo = nat \<lfloor>h\<rfloor>;
              hi = min (lo + 1) m
          in s ! lo + (h - real lo) * (s ! hi - s ! lo)) = 1"
proof -
  have nth1: "(replicate m (1::real) @ [100]) ! k = 1" if "k < m" for k
    using that by (simp add: nth_append)
  from assms(1) have a: "lo < m" and b: "min (lo + 1) m < m" by auto
  show ?thesis
    unfolding Let_def assms(2)[symmetric] nth1[OF a] nth1[OF b] by simp
qed

lemma floor_bound:
  fixes q :: real
  assumes "29 \<le> m" and "0 \<le> q" and "q \<le> 3/4"
  shows "nat \<lfloor>real m * q\<rfloor> + 1 < m"
proof -
  have "real m * q \<le> real m * (3/4)" using assms by (intro mult_left_mono) simp_all
  also have "\<dots> \<le> real m - 7" using assms(1) by simp
  finally have "\<lfloor>real m * q\<rfloor> \<le> int m - 7" by linarith
  then show ?thesis using assms(1) by linarith
qed

lemma quantile_spiky:
  assumes "30 \<le> n"
  shows "quantile (map y (spiky_rows n)) (1/4) = Some 1"
    and "quantile (map y (spiky_rows n)) (3/4) = Some 1"
proof -
  define m where "m = n - 1"
  have s: "sort (map y (spiky_rows n)) = replicate m 1 @ [100]"
    unfolding m_def using assms by (intro sort_spiky) simp
  have len: "length (map y (spiky_rows n)) - 1 = m" by (simp add: spiky_rows_def m_def)
  have ne: "map y (spiky_rows n) \<noteq> []" using assms by (auto simp: spiky_rows_def)
  have m: "29 \<le> m" using assms by (simp add: m_def)
  have q: "quantile (map y (spiky_rows n)) q = Some 1" if "0 \<le> q" "q \<le> 3/4" for q :: real
    unfolding quantile_def if_not_P[OF ne] s len
    using quantile_ones[OF floor_bound[OF m that] refl] by (simp add: Let_def)
  show "quantile (map y (spiky_rows n)) (1/4) = Some 1" by (rule q) simp_all
  show "quantile (map y (spiky_rows n)) (3/4) = Some 1" by (rule q) simp_all
qed

lemma upt_split_15: "16 \<le> n \<Longrightarrow> [0..<n] = [0..<15] @ 15 # [16..<n]"
proof -
  assume n: "16 \<le> n"
  have "[0..<n] = [0..<15] @ [15..<n]"
    using n upt_add_eq_append[of 0 15 "n - 15"] by simp
  also have "[15..<n] = 15 # [16..<n]"
    using n by (simp add: upt_conv_Cons)
  finally show ?thesis .
qed

lemma filter_spiky:
  assumes "16 \<le> n"
  shows "filter (\<lambda>r. 1 \<le> y r \<and> y r \<le> 1) (spiky_rows n)
       = map (\<lambda>i. plain_row (int i) 1) ([0..<15] @ [16..<n])"
proof -
  have a: "filter (\<lambda>r. 1 \<le> y r \<and> y r \<le> 1)
             (map (\<lambda>i. plain_row (int i) (if i = 15 then 100 else 1)) is)
         = map (\<lambda>i. plain_row (int i) 1) is" if "15 \<notin> set is" for "is"
    using that by (induction "is") (auto simp: plain_row_def)
  show ?thesis
    unfolding spiky_rows_def upt_split_15[OF assms]
    by (simp add: a) (simp add: plain_row_def)
qed

lemma sorted_kept: "sort_key ds (map (\<lambda>i. plain_row (int i) 1) ([0..<15] @ [16..<n]))
     = map (\<lambda>i. plain_row (int i) 1) ([0..<15] @ [16..<n])"
proof (rule sort_key_id_if_sorted)
  have m: "map ds (map (\<lambda>i. plain_row (int i) 1) xs) = map int xs" for xs
    by (simp add: plain_row_def o_def)
  have s: "sorted ([0..<15] @ [16..<n])"
    by (auto simp: sorted_append)
  have "sorted_wrt (\<lambda>a b. int a \<le> int b) ([0..<15] @ [16..<n])"
    by (rule sorted_wrt_mono_rel[OF _ s]) simp
  then have "sorted (map int ([0..<15] @ [16..<n]))"
    unfolding sorted_map .
  then show "sorted (map ds (map (\<lambda>i. plain_row (int i) 1) ([0..<15] @ [16..<n])))"
    unfolding m .
qed

text \<open>
  Claim C5, as stated, fails at exactly 30 points: the guard is \<open>len(prophet_df) > 30\<close>. On
  the 30-day series with one spike, spike detection is requested and the point of day 15
  exceeds the rolling mean plus twice the rolling standard deviation of its window, yet the
  prepared frame has no \<open>is_spike\<close> column and no row carries a flag.
\<close>

theorem spike_detection_thirty_points_counterexample:
  "length (clean_rows (spiky_series 30)) = 30 \<and>
   prepare_data (spiky_series 30) False True = Inr \<lparr>columns = [''ds'', ''y''], rows = spiky_rows 30\<rparr> \<and>
   spiky_rows 30 ! 15 = plain_row 15 100 \<and>
   y (spiky_rows 30 ! 15) > spec_threshold (map y (spiky_rows 30)) 15"
proof -
  have l: "length (clean_rows (spiky_series 30)) = 30"
    by (simp add: clean_rows_spiky spiky_rows_def)
  have p: "prepare_data (spiky_series 30) False True
      = Inr \<lparr>columns = [''ds'', ''y''], rows = spiky_rows 30\<rparr>"
    using prepare_data_short[OF parseable_spiky, of 30 False True] l
    by (simp add: clean_rows_spiky sorted_spiky)
  have r: "spiky_rows 30 ! 15 = plain_row 15 100"
    by (simp add: spiky_rows_def)
  have "y (plain_row 15 100) = 100" by (simp add: plain_row_def)
  with l p r threshold15[of 30] show ?thesis by simp
qed

text \<open>
  Claim C5, amended. For every table whose dates parse and that has more than 30 rows with a
  date and a number, \<open>prepare_data\<close> with spike detection gives every such row its flag:
  1 exactly when its value strictly exceeds the rolling mean plus twice the rolling standard
  deviation of the seven values centred at its position, the mean and standard deviation of
  the whole series standing in at the three first and three last positions. Flagging drops
  no row: the prepared frame holds all flagged rows, sorted by date, less those the outlier
  rule removes when that option is on.
\<close>

theorem spike_flags_above_threshold:
  assumes "parseable df" and "30 < length (clean_rows df)"
  shows "\<exists>Q1 Q3. quantile (map y (clean_rows df)) (1/4) = Some Q1 \<and>
           quantile (map y (clean_rows df)) (3/4) = Some Q3 \<and>
           prepare_data df ro True =
             Inr \<lparr>columns = [''ds'', ''y'', ''is_spike''],
                  rows = sort_key ds (filter (\<lambda>r. ro \<longrightarrow> within_iqr Q1 Q3 (y r))
                                        (spec_flagged (clean_rows df)))\<rparr>"
proof -
  let ?rs = "clean_rows df"
  from assms(2) have ne: "map y ?rs \<noteq> []" by auto
  obtain Q1 Q3 where q: "quantile (map y ?rs) (1/4) = Some Q1" "quantile (map y ?rs) (3/4) = Some Q3"
    using quantile_Some[OF ne] by blast
  let ?f1 = "\<lparr>columns = [''ds'', ''y'', ''is_spike''], rows = spec_flagged ?rs\<rparr>"
  have d: "detect_spikes_step \<lparr>columns = [''ds'', ''y''], rows = ?rs\<rparr> = ?f1"
    using detect_spikes_step_flagged[of "\<lparr>columns = [''ds'', ''y''], rows = ?rs\<rparr>"] assms(2) by simp
  have r: "remove_outliers_step ?f1 = ?f1\<lparr>rows := filter (\<lambda>r. within_iqr Q1 Q3 (y r)) (rows ?f1)\<rparr>"
    using q by (intro remove_outliers_step_within) (simp_all add: map_y_spec_flagged)
  have "prepare_data df ro True =
             Inr \<lparr>columns = [''ds'', ''y'', ''is_spike''],
                  rows = sort_key ds (filter (\<lambda>r. ro \<longrightarrow> within_iqr Q1 Q3 (y r))
                                        (spec_flagged (clean_rows df)))\<rparr>"
    using assms(2)
    by (cases ro) (simp_all add: prepare_data_parseable[OF assms(1)] d r length_spec_flagged sort_values_ds_def)
  with q show ?thesis by blast
qed

theorem spike_flags_above_threshold_witness:
  "parseable (spiky_series 31) \<and> 30 < length (clean_rows (spiky_series 31)) \<and>
   prepare_data (spiky_series 31) False True =
     Inr \<lparr>columns = [''ds'', ''y'', ''is_spike''],
          rows = sort_key ds (spec_flagged (spiky_rows 31))\<rparr> \<and>
   spec_flagged (spiky_rows 31) ! 15 = \<lparr>ds = 15, y = 100, is_spike = Some 1, dow = None\<rparr>"
proof -
  have l: "30 < length (clean_rows (spiky_series 31))" by (simp add: length_spiky)
  from spike_flags_above_threshold[OF parseable_spiky l, of False]
  have p: "prepare_data (spiky_series 31) False True =
     Inr \<lparr>columns = [''ds'', ''y'', ''is_spike''],
          rows = sort_key ds (spec_flagged (spiky_rows 31))\<rparr>"
    by (auto simp: clean_rows_spiky)
  have r: "spiky_rows 31 ! 15 = plain_row 15 100" by (simp add: spiky_rows_def)
  have "length (spiky_rows 31) = 31" by (simp add: spiky_rows_def)
  then have "spec_flagged (spiky_rows 31) ! 15
      = (spiky_rows 31 ! 15)\<lparr>is_spike :=
           Some (if y (spiky_rows 31 ! 15) > spec_threshold (map y (spiky_rows 31)) 15 then 1 else 0)\<rparr>"
    by (simp add: spec_flagged_def)
  with threshold15[of 31] r
  have "spec_flagged (spiky_rows 31) ! 15 = \<lparr>ds = 15, y = 100, is_spike = Some 1, dow = None\<rparr>"
    by (simp add: plain_row_def)
  with p l parseable_spiky show ?thesis by simp
qed

text \<open>
  Claim C6, as stated, fails at exactly 30 points: the guard is \<open>len(prophet_df) > 30\<close>. On
  the 30-day series with one spike both quartiles are 1, so the interval is \<open>[1, 1]\<close>; outlier
  removal is requested and the point 100 of day 15 lies outside the interval, yet it is kept.
\<close>

theorem outlier_removal_thirty_points_counterexample:
  "length (clean_rows (spiky_series 30)) = 30 \<and>
   quantile (map y (clean_rows (spiky_series 30))) (1/4) = Some 1 \<and>
   quantile (map y (clean_rows (spiky_series 30))) (3/4) = Some 1 \<and>
   prepare_data (spiky_series 30) True False = Inr \<lparr>columns = [''ds'', ''y''], rows = spiky_rows 30\<rparr> \<and>
   spiky_rows 30 ! 15 = plain_row 15 100 \<and>
   \<not> (1 - 3 * (1 - 1) \<le> y (plain_row 15 100) \<and> y (plain_row 15 100) \<le> 1 + 3 * (1 - (1::real)))"
proof -
  have l: "length (clean_rows (spiky_series 30)) = 30"
    by (simp add: clean_rows_spiky spiky_rows_def)
  have p: "prepare_data (spiky_series 30) True False
      = Inr \<lparr>columns = [''ds'', ''y''], rows = spiky_rows 30\<rparr>"
    using prepare_data_short[OF parseable_spiky, of 30 True False] l
    by (simp add: clean_rows_spiky sorted_spiky)
  have r: "spiky_rows 30 ! 15 = plain_row 15 100"
    by (simp add: spiky_rows_def)
  have "y (plain_row 15 100) = 100" by (simp add: plain_row_def)
  with l p r quantile_spiky[of 30] show ?thesis by (simp add: clean_rows_spiky)
qed

text \<open>
  Claim C6, amended. For every table whose dates parse and that has more than 30 rows with a
  date and a number, \<open>prepare_data\<close> with outlier removal keeps exactly the rows whose value
  lies in \<open>[Q1 - 3 IQR, Q3 + 3 IQR]\<close>, with \<open>Q1\<close> and \<open>Q3\<close> the quantiles 0.25 and 0.75 of the
  values and \<open>IQR = Q3 - Q1\<close>, and returns them sorted by date (flagged, when spike detection
  is on as well).
\<close>

theorem outliers_outside_iqr_removed:
  assumes "parseable df" and "30 < length (clean_rows df)"
  shows "\<exists>Q1 Q3. quantile (map y (clean_rows df)) (1/4) = Some Q1 \<and>
           quantile (map y (clean_rows df)) (3/4) = Some Q3 \<and>
           prepare_data df True dsp =
             Inr \<lparr>columns = (if dsp then [''ds'', ''y'', ''is_spike''] else [''ds'', ''y'']),
                  rows = sort_key ds (filter (\<lambda>r. Q1 - 3 * (Q3 - Q1) \<le> y r \<and> y r \<le> Q3 + 3 * (Q3 - Q1))
                                        (if dsp then spec_flagged (clean_rows df) else clean_rows df))\<rparr>"
proof -
  let ?rs = "clean_rows df"
  from assms(2) have ne: "map y ?rs \<noteq> []" by auto
  obtain Q1 Q3 where q: "quantile (map y ?rs) (1/4) = Some Q1" "quantile (map y ?rs) (3/4) = Some Q3"
    using quantile_Some[OF ne] by blast
  let ?f0 = "\<lparr>columns = [''ds'', ''y''], rows = ?rs\<rparr>"
  let ?f1 = "\<lparr>columns = [''ds'', ''y'', ''is_spike''], rows = spec_flagged ?rs\<rparr>"
  have d: "detect_spikes_step ?f0 = ?f1"
    using detect_spikes_step_flagged[of ?f0] assms(2) by simp
  have r1: "remove_outliers_step ?f1 = ?f1\<lparr>rows := filter (\<lambda>r. within_iqr Q1 Q3 (y r)) (rows ?f1)\<rparr>"
    using q by (intro remove_outliers_step_within) (simp_all add: map_y_spec_flagged)
  have r0: "remove_outliers_step ?f0 = ?f0\<lparr>rows := filter (\<lambda>r. within_iqr Q1 Q3 (y r)) (rows ?f0)\<rparr>"
    using q by (intro remove_outliers_step_within) simp_all
  have "prepare_data df True dsp =
             Inr \<lparr>columns = (if dsp then [''ds'', ''y'', ''is_spike''] else [''ds'', ''y'']),
                  rows = sort_key ds (filter (\<lambda>r. Q1 - 3 * (Q3 - Q1) \<le> y r \<and> y r \<le> Q3 + 3 * (Q3 - Q1))
                                        (if dsp then spec_flagged (clean_rows df) else clean_rows df))\<rparr>"
    using assms(2)
    by (cases dsp) (simp_all add: prepare_data_parseable[OF assms(1)] d r0 r1 length_spec_flagged
           sort_values_ds_def within_iqr_def)
  with q show ?thesis by blast
qed

theorem outliers_outside_iqr_removed_witness:
  "parseable (spiky_series 31) \<and> 30 < length (clean_rows (spiky_series 31)) \<and>
   quantile (map y (clean_rows (spiky_series 31))) (1/4) = Some 1 \<and>
   quantile (map y (clean_rows (spiky_series 31))) (3/4) = Some 1 \<and>
   prepare_data (spiky_series 31) True False =
     Inr \<lparr>columns = [''ds'', ''y''],
          rows = map (\<lambda>i. plain_row (int i) 1) ([0..<15] @ [16..<31])\<rparr>"
proof -
  have l: "30 < length (clean_rows (spiky_series 31))" by (simp add: length_spiky)
  note q = quantile_spiky[of 31, simplified]
  from outliers_outside_iqr_removed[OF parseable_spiky l, of False] q
  have "prepare_data (spiky_series 31) True False =
     Inr \<lparr>columns = [''ds'', ''y''],
          rows = sort_key ds (filter (\<lambda>r. 1 \<le> y r \<and> y r \<le> 1) (spiky_rows 31))\<rparr>"
    by (auto simp: clean_rows_spiky)
  moreover have "filter (\<lambda>r. 1 \<le> y r \<and> y r \<le> 1) (spiky_rows 31)
      = map (\<lambda>i. plain_row (int i) 1) ([0..<15] @ [16..<31])"
    by (rule filter_spiky) simp
  ultimately have "prepare_data (spiky_series 31) True False =
     Inr \<lparr>columns = [''ds'', ''y''],
          rows = map (\<lambda>i. plain_row (int i) 1) ([0..<15] @ [16..<31])\<rparr>"
    by (simp only: sorted_kept)
  with l q parseable_spiky show ?thesis by (simp add: clean_rows_spiky)
qed

end
